theory Spec2Isabelle
  imports Complex_Main "HOL-Library.List_Lexorder" "HOL-Library.Char_ord" "HOL-Library.Multiset"
begin

section \<open>JavaScript strings and arrays\<close>

text \<open>
  Strings are lists of code units (\<^typ>\<open>string\<close>); the order on them, from
  \<^theory_text>\<open>List_Lexorder\<close> and \<^theory_text>\<open>Char_ord\<close>, is the code-unit order that
  \<^verbatim>\<open>Array.prototype.sort()\<close> uses without a comparator.
\<close>

definition slash :: char where
  "slash = CHR ''/''"

definition backslash :: char where
  "backslash = CHR 0x5C"

text \<open>\<^verbatim>\<open>s.split(c)\<close> for a one-character separator: never an empty array.\<close>

fun split_on :: "char \<Rightarrow> string \<Rightarrow> string list" where
  "split_on c [] = [[]]"
| "split_on c (x # xs) =
     (if x = c then [] # split_on c xs
      else (case split_on c xs of
              [] \<Rightarrow> [[x]]
            | s # ss \<Rightarrow> (x # s) # ss))"

text \<open>\<^verbatim>\<open>parts.join(sep)\<close>.\<close>

fun join_with :: "string \<Rightarrow> string list \<Rightarrow> string" where
  "join_with sep [] = []"
| "join_with sep [s] = s"
| "join_with sep (s # t # ss) = s @ sep @ join_with sep (t # ss)"

text \<open>\<^verbatim>\<open>xs.indexOf(x)\<close>: the first index holding \<open>x\<close>, or \<open>-1\<close>.\<close>

fun indexOf :: "'a list \<Rightarrow> 'a \<Rightarrow> int" where
  "indexOf [] x = -1"
| "indexOf (y # ys) x =
     (if y = x then 0
      else (let i = indexOf ys x in if i = -1 then -1 else i + 1))"

text \<open>\<^verbatim>\<open>s.replace(/\\/g, '/')\<close>.\<close>

definition replace_backslashes :: "string \<Rightarrow> string" where
  "replace_backslashes s = map (\<lambda>ch. if ch = backslash then slash else ch) s"

text \<open>\<^verbatim>\<open>s.trim()\<close>, on the white space of the first 256 code units.\<close>

definition is_space :: "char \<Rightarrow> bool" where
  "is_space ch = (of_char ch \<in> {9, 10, 11, 12, 13, 32, 160 :: int})"

definition trim :: "string \<Rightarrow> string" where
  "trim s = rev (dropWhile is_space (rev (dropWhile is_space s)))"

section \<open>Node's \<^verbatim>\<open>path\<close> module, POSIX flavour\<close>

text \<open>
  \<^verbatim>\<open>path.basename(p)\<close>: trailing slashes are skipped, then the characters back to the
  previous slash are the result.
\<close>

definition path_basename :: "string \<Rightarrow> string" where
  "path_basename p =
     rev (takeWhile (\<lambda>ch. ch \<noteq> slash) (dropWhile (\<lambda>ch. ch = slash) (rev p)))"

text \<open>
  \<^verbatim>\<open>path.dirname(p)\<close>: Node scans from the last index down to index 1, skips trailing
  slashes and the last segment, and cuts at the slash that precedes it. Index 0 is never
  scanned; it only decides between \<^verbatim>\<open>'/'\<close> and \<^verbatim>\<open>'.'\<close> when no cut is found.
\<close>

definition path_dirname :: "string \<Rightarrow> string" where
  "path_dirname p =
     (case p of
        [] \<Rightarrow> ''.''
      | c # rest \<Rightarrow>
          (case dropWhile (\<lambda>ch. ch \<noteq> slash) (dropWhile (\<lambda>ch. ch = slash) (rev rest)) of
             [] \<Rightarrow> (if c = slash then ''/'' else ''.'')
           | _ # front \<Rightarrow>
               (if c = slash \<and> front = [] then ''//'' else c # rev front)))"

text \<open>
  \<^verbatim>\<open>path.normalize\<close> works through the segments from left to right: empty segments
  and \<^verbatim>\<open>.\<close> are dropped, \<^verbatim>\<open>..\<close> removes the segment that precedes it (or is kept, for a
  relative path that climbs above its start). The accumulator is kept in reverse.
\<close>

fun normalize_step :: "bool \<Rightarrow> string list \<Rightarrow> string \<Rightarrow> string list" where
  "normalize_step allowAboveRoot acc seg =
     (if seg = [] \<or> seg = ''.'' then acc
      else if seg = ''..'' then
        (case acc of
           [] \<Rightarrow> (if allowAboveRoot then [''..''] else [])
         | s # front \<Rightarrow>
             (if s = ''..'' then (if allowAboveRoot then ''..'' # acc else acc)
              else front))
      else seg # acc)"

definition normalizeString :: "string \<Rightarrow> bool \<Rightarrow> string" where
  "normalizeString p allowAboveRoot =
     join_with ''/'' (rev (foldl (normalize_step allowAboveRoot) [] (split_on slash p)))"

definition path_normalize :: "string \<Rightarrow> string" where
  "path_normalize p =
     (if p = [] then ''.''
      else
        (let isAbsolute = (hd p = slash);
             trailingSeparator = (last p = slash);
             q = normalizeString p (\<not> isAbsolute)
         in if q = [] then
              (if isAbsolute then ''/'' else if trailingSeparator then ''./'' else ''.'')
            else (if isAbsolute then ''/'' else []) @ q @ (if trailingSeparator then ''/'' else [])))"

text \<open>\<^verbatim>\<open>path.join(a, b)\<close>: the non-empty arguments joined by a slash, normalised.\<close>

definition path_join :: "string \<Rightarrow> string \<Rightarrow> string" where
  "path_join a b =
     (if a = [] \<and> b = [] then ''.''
      else if a = [] then path_normalize b
      else if b = [] then path_normalize a
      else path_normalize (a @ ''/'' @ b))"

text \<open>
  \<^verbatim>\<open>path.resolve(p)\<close> against the working directory, as the list of its segments:
  a relative path is appended to the working directory, then the segments are
  normalised without climbing above the root. \<^verbatim>\<open>path.relative(from, to)\<close> resolves
  both paths, leaves out the segments they share from the root on, and climbs with one
  \<^verbatim>\<open>..\<close> for each segment left of \<open>from\<close> before it descends along the segments
  left of \<open>to\<close>; the result is empty when both resolve to the same path.
\<close>

definition resolved_segments :: "string \<Rightarrow> string \<Rightarrow> string list" where
  "resolved_segments workdir p =
     rev (foldl (normalize_step False) []
            (split_on slash (if p \<noteq> [] \<and> hd p = slash then p else workdir @ ''/'' @ p)))"

fun drop_common :: "string list \<Rightarrow> string list \<Rightarrow> string list \<times> string list" where
  "drop_common (x # xs) (y # ys) = (if x = y then drop_common xs ys else (x # xs, y # ys))"
| "drop_common xs ys = (xs, ys)"

definition path_relative :: "string \<Rightarrow> string \<Rightarrow> string \<Rightarrow> string" where
  "path_relative workdir from to =
     (case drop_common (resolved_segments workdir from) (resolved_segments workdir to) of
        (fs, ts) \<Rightarrow> join_with ''/'' (map (\<lambda>s. ''..'') fs @ ts))"

section \<open>The file system\<close>

text \<open>
  A directory tree of regular files (with their content) and directories (with their
  entries in the order \<^verbatim>\<open>readdirSync\<close> lists them). Symbolic links and special
  files are outside the model.
\<close>

datatype node = File string | Dir "(string \<times> node) list"

text \<open>
  The exceptions of the run: the file system's errors (with the path), the errors of
  \<^verbatim>\<open>JSON.parse\<close> and of the engine, and the two the script throws itself.
\<close>

datatype error =
    ENOENT string
  | ENOTDIR string
  | EISDIR string
  | SyntaxError
  | TypeError
  | InvalidToolPath string
  | ToolsDirNotFound

text \<open>
  The values \<^verbatim>\<open>JSON.parse\<close> returns; an object holds each of its keys once. The
  script only copies a number or tests whether it is zero.
\<close>

datatype json =
    JNull
  | JBool bool
  | JNum real
  | JStr string
  | JArr "json list"
  | JObj "(string \<times> json) list"

text \<open>
  The tool object. \<^verbatim>\<open>name\<close>, \<^verbatim>\<open>description\<close> and \<^verbatim>\<open>id\<close> are whatever value the
  descriptor holds; \<^verbatim>\<open>dependencies\<close> and \<^verbatim>\<open>id\<close> are keys the object may lack.
\<close>

record tool =
  name :: json
  description :: json
  folder :: string
  updated_at :: string
  dependencies :: "string list option"
  tool_id :: "json option"

text \<open>
  What the run reads from outside the script: the working directory, the file system,
  \<^verbatim>\<open>JSON.parse\<close> (\<open>None\<close> is its SyntaxError), the output of the
  \<^verbatim>\<open>git log\<close> command for the path it is given (\<open>None\<close> when \<^verbatim>\<open>execSync\<close> throws),
  the clock, \<^verbatim>\<open>String.prototype.localeCompare\<close>, and what the engine's sort does
  with a comparator that throws on some of the records.
\<close>

record env =
  cwd :: string
  fs_root :: node
  JSON_parse :: "string \<Rightarrow> json option"
  git_log :: "string \<Rightarrow> string option"
  clock_now :: string
  localeCompare :: "string \<Rightarrow> string \<Rightarrow> int"
  engine_sort :: "tool list \<Rightarrow> error + tool list"

text \<open>
  Path resolution: \<open>cur\<close> is the node reached so far and \<open>up\<close> its ancestors,
  nearest first. Every further segment, also an empty one or a dot, needs \<open>cur\<close> to
  be a directory.
\<close>

fun walk :: "node \<Rightarrow> node list \<Rightarrow> string list \<Rightarrow> node option" where
  "walk cur up [] = Some cur"
| "walk cur up (s # ss) =
     (case cur of
        File content \<Rightarrow> None
      | Dir es \<Rightarrow>
          (if s = [] \<or> s = ''.'' then walk cur up ss
           else if s = ''..'' then
             (case up of
                [] \<Rightarrow> walk cur [] ss
              | p # ps \<Rightarrow> walk p ps ss)
           else
             (case map_of es s of
                None \<Rightarrow> None
              | Some child \<Rightarrow> walk child (cur # up) ss)))"

definition resolve :: "env \<Rightarrow> string \<Rightarrow> node option" where
  "resolve env p =
     (if p = [] then None
      else walk (fs_root env) []
             (split_on slash (if hd p = slash then p else cwd env @ ''/'' @ p)))"

fun isDirectory :: "node \<Rightarrow> bool" where
  "isDirectory (Dir es) = True"
| "isDirectory (File content) = False"

fun isFile :: "node \<Rightarrow> bool" where
  "isFile (File content) = True"
| "isFile (Dir es) = False"

definition existsSync :: "env \<Rightarrow> string \<Rightarrow> bool" where
  "existsSync env p = (resolve env p \<noteq> None)"

definition statSync :: "env \<Rightarrow> string \<Rightarrow> error + node" where
  "statSync env p =
     (case resolve env p of
        None \<Rightarrow> Inl (ENOENT p)
      | Some n \<Rightarrow> Inr n)"

definition readdirSync :: "env \<Rightarrow> string \<Rightarrow> error + string list" where
  "readdirSync env p =
     (case resolve env p of
        None \<Rightarrow> Inl (ENOENT p)
      | Some (File content) \<Rightarrow> Inl (ENOTDIR p)
      | Some (Dir es) \<Rightarrow> Inr (map fst es))"

definition readFileSync :: "env \<Rightarrow> string \<Rightarrow> error + string" where
  "readFileSync env p =
     (case resolve env p of
        None \<Rightarrow> Inl (ENOENT p)
      | Some (Dir es) \<Rightarrow> Inl (EISDIR p)
      | Some (File content) \<Rightarrow> Inr content)"

text \<open>
  \<^verbatim>\<open>writeFileSync\<close> replaces a regular file or creates one in an existing directory;
  it fails on a directory.
\<close>

definition writeFileSync :: "env \<Rightarrow> string \<Rightarrow> error + unit" where
  "writeFileSync env p =
     (case resolve env p of
        Some (Dir es) \<Rightarrow> Inl (EISDIR p)
      | Some (File content) \<Rightarrow> Inr ()
      | None \<Rightarrow>
          (case resolve env (path_dirname p) of
             Some (Dir es) \<Rightarrow> Inr ()
           | Some (File content) \<Rightarrow> Inl (ENOTDIR p)
           | None \<Rightarrow> Inl (ENOENT p)))"

section \<open>JavaScript values and objects\<close>

fun truthy :: "json \<Rightarrow> bool" where
  "truthy JNull = False"
| "truthy (JBool b) = b"
| "truthy (JNum r) = (r \<noteq> 0)"
| "truthy (JStr s) = (s \<noteq> [])"
| "truthy (JArr vs) = True"
| "truthy (JObj kvs) = True"

text \<open>
  Reading a property of a parsed value: \<open>null\<close> throws, an object gives its own
  property, and every other value (and an object without the key) gives \<open>undefined\<close>
  for the keys the script reads (\<^verbatim>\<open>name\<close>, \<^verbatim>\<open>description\<close>, \<^verbatim>\<open>id\<close>), which no
  prototype defines.
\<close>

fun getProp :: "json \<Rightarrow> string \<Rightarrow> error + json option" where
  "getProp JNull k = Inl TypeError"
| "getProp (JObj kvs) k = Inr (map_of kvs k)"
| "getProp v k = Inr None"

text \<open>\<^verbatim>\<open>x || d\<close> and the test \<^verbatim>\<open>if (x)\<close> on a property that may be undefined.\<close>

fun or_default :: "json option \<Rightarrow> json \<Rightarrow> json" where
  "or_default None d = d"
| "or_default (Some v) d = (if truthy v then v else d)"

fun truthy_prop :: "json option \<Rightarrow> bool" where
  "truthy_prop None = False"
| "truthy_prop (Some v) = truthy v"

text \<open>
  Whether the conversion to a string, as a template literal does it, throws for a
  parsed value. An object is converted by its \<^verbatim>\<open>toString\<close>: the inherited method
  returns a string, but an own property \<^verbatim>\<open>toString\<close> of a parsed object is never a
  function, so the conversion goes on to \<^verbatim>\<open>valueOf\<close>, which is not a function
  either or returns the object itself, and ends in a TypeError. An array converts each
  of its elements (\<^verbatim>\<open>null\<close> to the empty string) and joins them. Every other value
  has a string form.
\<close>

fun toString_throws :: "json \<Rightarrow> bool" where
  "toString_throws (JObj kvs) = (map_of kvs ''toString'' \<noteq> None)"
| "toString_throws (JArr vs) = list_ex toString_throws vs"
| "toString_throws v = False"

text \<open>The same for a property that may be undefined; \<^verbatim>\<open>undefined\<close> has a string form.\<close>

fun toString_prop_throws :: "json option \<Rightarrow> bool" where
  "toString_prop_throws None = False"
| "toString_prop_throws (Some v) = toString_throws v"

text \<open>
  The properties every ordinary object inherits from \<^verbatim>\<open>Object.prototype\<close>: reading
  one of these keys from an object that has no own property of that name gives a
  function (or, for \<^verbatim>\<open>__proto__\<close>, the prototype), which is truthy.
\<close>

definition objectPrototypeKeys :: "string list" where
  "objectPrototypeKeys =
     [''constructor'', ''__defineGetter__'', ''__defineSetter__'', ''hasOwnProperty'',
      ''__lookupGetter__'', ''__lookupSetter__'', ''isPrototypeOf'',
      ''propertyIsEnumerable'', ''toString'', ''valueOf'', ''__proto__'',
      ''toLocaleString'']"

text \<open>
  An ordinary object with string keys: its own properties in creation order. Its keys
  are enumerated (\<^verbatim>\<open>Object.values\<close>, \<^verbatim>\<open>Object.entries\<close>, \<^verbatim>\<open>JSON.stringify\<close>) with
  the array indices first, in ascending numeric order, then the other keys in creation
  order. An array index is a canonical decimal numeral below \<open>2\<^sup>3\<^sup>2 - 1\<close>.
\<close>

definition is_digit :: "char \<Rightarrow> bool" where
  "is_digit ch = (48 \<le> (of_char ch :: int) \<and> (of_char ch :: int) \<le> 57)"

definition digits_value :: "string \<Rightarrow> int" where
  "digits_value s = foldl (\<lambda>n ch. 10 * n + (of_char ch - 48)) 0 s"

definition isArrayIndex :: "string \<Rightarrow> bool" where
  "isArrayIndex s =
     (s \<noteq> [] \<and> list_all is_digit s \<and> (s = ''0'' \<or> hd s \<noteq> CHR ''0'')
      \<and> digits_value s < 2 ^ 32 - 1)"

definition obj_set :: "(string \<times> 'v) list \<Rightarrow> string \<Rightarrow> 'v \<Rightarrow> (string \<times> 'v) list" where
  "obj_set obj k v =
     (if map_of obj k = None then obj @ [(k, v)]
      else map (\<lambda>kv. if fst kv = k then (k, v) else kv) obj)"

definition fromEntries :: "(string \<times> 'v) list \<Rightarrow> (string \<times> 'v) list" where
  "fromEntries es = foldl (\<lambda>obj kv. obj_set obj (fst kv) (snd kv)) [] es"

definition obj_entries :: "(string \<times> 'v) list \<Rightarrow> (string \<times> 'v) list" where
  "obj_entries obj =
     sort_key (\<lambda>kv. digits_value (fst kv)) (filter (\<lambda>kv. isArrayIndex (fst kv)) obj)
     @ filter (\<lambda>kv. \<not> isArrayIndex (fst kv)) obj"

section \<open>The catalog generator\<close>

text \<open>The lines the script prints, in the order of printing.\<close>

datatype diag =
    WarnUnknownSoftwareType string
  | WarnNoGitHistory string
  | WarnGitFailed string
  | ErrorSkipping string string
  | ErrorFailedToProcess string error
  | LogProcessed json string
  | WarnUnknownType string
  | LogGenerating
  | LogFound nat nat
  | LogSoftwareTypes "string list"
  | LogSummary nat
  | ErrorFatal error

definition SOFTWARE_CONFIG :: "(string \<times> string) list" where
  "SOFTWARE_CONFIG =
     [(''blender'', ''py''), (''sketchup'', ''rb''), (''rhino'', ''py''), (''revit'', ''py'')]"

text \<open>
  \<^verbatim>\<open>findMetadataFiles\<close>. The inner \<^verbatim>\<open>traverse\<close> runs over the entries of the
  directory at \<open>currentDir\<close>; the node paired with an entry is what \<^verbatim>\<open>statSync\<close>
  finds at \<open>fullPath\<close>, and its entries are what \<^verbatim>\<open>readdirSync\<close> lists there.
\<close>

fun traverse :: "string \<Rightarrow> (string \<times> node) list \<Rightarrow> string list" where
  "traverse currentDir [] = []"
| "traverse currentDir ((entry, File content) # rest) =
     (if entry = ''metadata.json'' then [path_join currentDir entry] else [])
     @ traverse currentDir rest"
| "traverse currentDir ((entry, Dir es) # rest) =
     traverse (path_join currentDir entry) es @ traverse currentDir rest"

definition findMetadataFiles :: "env \<Rightarrow> string \<Rightarrow> error + string list" where
  "findMetadataFiles env dir =
     (case resolve env dir of
        None \<Rightarrow> Inl (ENOENT dir)
      | Some (File content) \<Rightarrow> Inl (ENOTDIR dir)
      | Some (Dir es) \<Rightarrow> Inr (traverse dir es))"

definition extractSoftwareType :: "string \<Rightarrow> error + string" where
  "extractSoftwareType metadataPath =
     (let normalizedPath = replace_backslashes metadataPath;
          pathParts = split_on slash normalizedPath;
          toolsIndex = indexOf pathParts ''tools''
      in if toolsIndex = -1 \<or> toolsIndex + 1 \<ge> int (length pathParts)
         then Inl (InvalidToolPath metadataPath)
         else Inr (pathParts ! nat (toolsIndex + 1)))"

definition extractToolName :: "string \<Rightarrow> string" where
  "extractToolName metadataPath = path_basename (path_dirname metadataPath)"

text \<open>
  \<^verbatim>\<open>getMainFileName\<close>. \<^verbatim>\<open>SOFTWARE_CONFIG[softwareType]\<close> is an own entry, or a
  property inherited from \<^verbatim>\<open>Object.prototype\<close> (truthy, with no \<^verbatim>\<open>extension\<close>, so
  the template prints \<^verbatim>\<open>undefined\<close>), or undefined.
\<close>

definition getMainFileName :: "string \<Rightarrow> diag list \<times> string" where
  "getMainFileName softwareType =
     (case map_of SOFTWARE_CONFIG softwareType of
        Some extension \<Rightarrow> ([], ''tool.'' @ extension)
      | None \<Rightarrow>
          (if softwareType \<in> set objectPrototypeKeys then ([], ''tool.undefined'')
           else ([WarnUnknownSoftwareType softwareType], ''tool.py'')))"

text \<open>The filter of \<^verbatim>\<open>findDependencies\<close>: the first \<^verbatim>\<open>statSync\<close> that throws ends it.\<close>

fun filter_deps :: "env \<Rightarrow> string \<Rightarrow> string \<Rightarrow> string list \<Rightarrow> error + string list" where
  "filter_deps env toolDir mainFileName [] = Inr []"
| "filter_deps env toolDir mainFileName (entry # entries) =
     (if entry \<in> {''metadata.json'', mainFileName}
      then filter_deps env toolDir mainFileName entries
      else
        (case statSync env (path_join toolDir entry) of
           Inl e \<Rightarrow> Inl e
         | Inr st \<Rightarrow>
             (case filter_deps env toolDir mainFileName entries of
                Inl e \<Rightarrow> Inl e
              | Inr deps \<Rightarrow> Inr (if isFile st then entry # deps else deps))))"

definition findDependencies :: "env \<Rightarrow> string \<Rightarrow> string \<Rightarrow> diag list \<times> (error + string list)" where
  "findDependencies env metadataPath softwareType =
     (let toolDir = path_dirname metadataPath in
      case readdirSync env toolDir of
        Inl e \<Rightarrow> ([], Inl e)
      | Inr entries \<Rightarrow>
          (let (warn, mainFileName) = getMainFileName softwareType
           in (warn, filter_deps env toolDir mainFileName entries)))"

definition verifyMainToolFile :: "env \<Rightarrow> string \<Rightarrow> string \<Rightarrow> diag list \<times> bool" where
  "verifyMainToolFile env metadataPath softwareType =
     (let toolDir = path_dirname metadataPath;
          (warn, mainFileName) = getMainFileName softwareType;
          mainFilePath = path_join toolDir mainFileName
      in (warn, existsSync env mainFilePath))"

text \<open>
  \<^verbatim>\<open>getLastCommitDate\<close>; \<open>git_log env relativePath\<close> is what the \<^verbatim>\<open>git log\<close>
  command prints for the path, relative to the working directory, that the command
  line names. The warning for an empty output names the relative path, the one for a
  failing command the path as given.
\<close>

definition getLastCommitDate :: "env \<Rightarrow> string \<Rightarrow> diag list \<times> string" where
  "getLastCommitDate env dirPath =
     (let relativePath = path_relative (cwd env) (cwd env) dirPath in
      case git_log env relativePath of
        None \<Rightarrow> ([WarnGitFailed dirPath], clock_now env)
      | Some result \<Rightarrow>
          (let date = trim result
           in if date = [] then ([WarnNoGitHistory relativePath], clock_now env)
              else ([], date)))"

definition discoverSoftwareTypes_loop :: "env \<Rightarrow> string \<Rightarrow> string list \<Rightarrow> error + string list" where
  "discoverSoftwareTypes_loop env toolsDir entries =
     foldl (\<lambda>acc entry.
              case acc of
                Inl e \<Rightarrow> Inl e
              | Inr softwareTypes \<Rightarrow>
                  (case statSync env (path_join toolsDir entry) of
                     Inl e \<Rightarrow> Inl e
                   | Inr st \<Rightarrow>
                       Inr (if isDirectory st then softwareTypes @ [entry]
                            else softwareTypes)))
       (Inr []) entries"

definition discoverSoftwareTypes :: "env \<Rightarrow> string \<Rightarrow> error + string list" where
  "discoverSoftwareTypes env toolsDir =
     (case readdirSync env toolsDir of
        Inl e \<Rightarrow> Inl e
      | Inr entries \<Rightarrow>
          (case discoverSoftwareTypes_loop env toolsDir entries of
             Inl e \<Rightarrow> Inl e
           | Inr softwareTypes \<Rightarrow> Inr (sort softwareTypes)))"

text \<open>
  The part of \<^verbatim>\<open>processTool\<close> that builds the tool object and adds the optional
  fields. Reading \<^verbatim>\<open>metadata.name\<close> throws when the descriptor is \<^verbatim>\<open>null\<close>.
\<close>

definition buildTool :: "json \<Rightarrow> string \<Rightarrow> string list \<Rightarrow> string \<Rightarrow> error + tool" where
  "buildTool metadata toolName deps lastCommitDate =
     (case getProp metadata ''name'' of
        Inl e \<Rightarrow> Inl e
      | Inr metadata_name \<Rightarrow>
          (case getProp metadata ''description'' of
             Inl e \<Rightarrow> Inl e
           | Inr metadata_description \<Rightarrow>
               (case getProp metadata ''id'' of
                  Inl e \<Rightarrow> Inl e
                | Inr metadata_id \<Rightarrow>
                    Inr \<lparr> name = or_default metadata_name (JStr toolName),
                          description = or_default metadata_description (JStr []),
                          folder = toolName,
                          updated_at = lastCommitDate,
                          dependencies = (if length deps > 0 then Some deps else None),
                          tool_id = (if truthy_prop metadata_id then metadata_id else None) \<rparr>)))"

text \<open>
  The line \<^verbatim>\<open>processTool\<close> prints for a record: the template literals convert
  \<^verbatim>\<open>metadata.id\<close> (when it is truthy) and then \<^verbatim>\<open>tool.name\<close> to strings.
\<close>

definition processTool_log :: "json \<Rightarrow> tool \<Rightarrow> string \<Rightarrow> error + diag" where
  "processTool_log metadata t softwareType =
     (case getProp metadata ''id'' of
        Inl e \<Rightarrow> Inl e
      | Inr metadata_id \<Rightarrow>
          (if truthy_prop metadata_id \<and> toString_prop_throws metadata_id then Inl TypeError
           else if toString_throws (name t) then Inl TypeError
           else Inr (LogProcessed (name t) softwareType)))"

text \<open>
  \<^verbatim>\<open>processTool\<close>: the body of the \<^verbatim>\<open>try\<close> gives the lines printed and either the
  value returned or the exception thrown; the \<^verbatim>\<open>catch\<close> turns the exception into a
  line and \<^verbatim>\<open>null\<close>. \<open>processTool_checked\<close> is the body from the validation of
  the main file on.
\<close>

definition processTool_checked ::
  "env \<Rightarrow> string \<Rightarrow> json \<Rightarrow> string \<Rightarrow> diag list \<times> (error + (tool \<times> string) option)" where
  "processTool_checked env metadataPath metadata softwareType =
     (let toolName = extractToolName metadataPath;
          (warn1, found) = verifyMainToolFile env metadataPath softwareType
      in if \<not> found then
           (let (warn2, mainFileName) = getMainFileName softwareType
            in (warn1 @ warn2 @ [ErrorSkipping toolName mainFileName], Inr None))
         else
           (case findDependencies env metadataPath softwareType of
              (warn3, Inl e) \<Rightarrow> (warn1 @ warn3, Inl e)
            | (warn3, Inr deps) \<Rightarrow>
                (let (warn4, lastCommitDate) = getLastCommitDate env (path_dirname metadataPath)
                 in case buildTool metadata toolName deps lastCommitDate of
                      Inl e \<Rightarrow> (warn1 @ warn3 @ warn4, Inl e)
                    | Inr t \<Rightarrow>
                        (case processTool_log metadata t softwareType of
                           Inl e \<Rightarrow> (warn1 @ warn3 @ warn4, Inl e)
                         | Inr line \<Rightarrow>
                             (warn1 @ warn3 @ warn4 @ [line],
                              Inr (Some (t, softwareType)))))))"

definition processTool_try :: "env \<Rightarrow> string \<Rightarrow> diag list \<times> (error + (tool \<times> string) option)" where
  "processTool_try env metadataPath =
     (case readFileSync env metadataPath of
        Inl e \<Rightarrow> ([], Inl e)
      | Inr metadataContent \<Rightarrow>
          (case JSON_parse env metadataContent of
             None \<Rightarrow> ([], Inl SyntaxError)
           | Some metadata \<Rightarrow>
               (case extractSoftwareType metadataPath of
                  Inl e \<Rightarrow> ([], Inl e)
                | Inr softwareType \<Rightarrow>
                    processTool_checked env metadataPath metadata softwareType)))"

definition processTool :: "env \<Rightarrow> string \<Rightarrow> diag list \<times> (tool \<times> string) option" where
  "processTool env metadataPath =
     (case processTool_try env metadataPath of
        (out, Inl e) \<Rightarrow> (out @ [ErrorFailedToProcess metadataPath e], None)
      | (out, Inr r) \<Rightarrow> (out, r))"

text \<open>
  The catalog document as \<^verbatim>\<open>JSON.stringify\<close> writes it: \<open>tools\<close> holds the
  categories in the order their keys are enumerated.
\<close>

record catalog =
  version :: string
  generated_at :: string
  tools :: "(string \<times> tool list) list"

text \<open>
  One round of the loop over the results: \<^verbatim>\<open>catalog.tools[softwareType]\<close> is the
  category's own list, or an inherited property (truthy, and without a \<^verbatim>\<open>push\<close>
  method, so the call throws), or undefined.
\<close>

definition addTool ::
  "(string \<times> tool list) list \<Rightarrow> tool \<Rightarrow> string
     \<Rightarrow> diag list \<times> (error + (string \<times> tool list) list)" where
  "addTool obj t softwareType =
     (case map_of obj softwareType of
        Some ts \<Rightarrow>
          ([], Inr (map (\<lambda>kv. if fst kv = softwareType then (fst kv, snd kv @ [t]) else kv) obj))
      | None \<Rightarrow>
          (if softwareType \<in> set objectPrototypeKeys then ([], Inl TypeError)
           else ([WarnUnknownType softwareType], Inr obj)))"

fun processAll ::
  "env \<Rightarrow> string list \<Rightarrow> (string \<times> tool list) list
     \<Rightarrow> diag list \<times> (error + (string \<times> tool list) list)" where
  "processAll env [] obj = ([], Inr obj)"
| "processAll env (metadataPath # rest) obj =
     (case processTool env metadataPath of
        (out1, None) \<Rightarrow>
          (case processAll env rest obj of (out3, r) \<Rightarrow> (out1 @ out3, r))
      | (out1, Some (t, softwareType)) \<Rightarrow>
          (case addTool obj t softwareType of
             (out2, Inl e) \<Rightarrow> (out1 @ out2, Inl e)
           | (out2, Inr obj') \<Rightarrow>
               (case processAll env rest obj' of (out3, r) \<Rightarrow> (out1 @ out2 @ out3, r))))"

text \<open>
  \<^verbatim>\<open>tools.sort((a, b) => a.name.localeCompare(b.name))\<close>. The sort is stable; with a
  consistent comparator its result is the one of insertion from the right. With at most
  one record the comparator is not called; with more it is called at least once.
  \<^verbatim>\<open>a.name.localeCompare\<close> is a function only when \<^verbatim>\<open>a.name\<close> is a string, so a
  call throws whenever the name of its first record is not a string: every call does
  when no name is a string, and when only some are, whether a call throws depends on
  the calls the engine makes, and the outcome is the engine's.
\<close>

fun insert_by :: "('a \<Rightarrow> 'a \<Rightarrow> int) \<Rightarrow> 'a \<Rightarrow> 'a list \<Rightarrow> 'a list" where
  "insert_by cmp x [] = [x]"
| "insert_by cmp x (y # ys) =
     (if cmp x y \<le> 0 then x # y # ys else y # insert_by cmp x ys)"

definition sort_by :: "('a \<Rightarrow> 'a \<Rightarrow> int) \<Rightarrow> 'a list \<Rightarrow> 'a list" where
  "sort_by cmp xs = foldr (insert_by cmp) xs []"

fun string_of :: "json \<Rightarrow> string option" where
  "string_of (JStr s) = Some s"
| "string_of v = None"

fun with_names :: "tool list \<Rightarrow> (string \<times> tool) list option" where
  "with_names [] = Some []"
| "with_names (t # ts) =
     (case string_of (name t) of
        None \<Rightarrow> None
      | Some s \<Rightarrow>
          (case with_names ts of
             None \<Rightarrow> None
           | Some nts \<Rightarrow> Some ((s, t) # nts)))"

definition sortTools :: "env \<Rightarrow> tool list \<Rightarrow> error + tool list" where
  "sortTools env ts =
     (if length ts \<le> 1 then Inr ts
      else
        (case with_names ts of
           None \<Rightarrow>
             (if list_all (\<lambda>t. string_of (name t) = None) ts then Inl TypeError
              else engine_sort env ts)
         | Some nts \<Rightarrow>
             Inr (map snd (sort_by (\<lambda>a b. localeCompare env (fst a) (fst b)) nts))))"

fun sortAll :: "env \<Rightarrow> (string \<times> tool list) list \<Rightarrow> error + (string \<times> tool list) list" where
  "sortAll env [] = Inr []"
| "sortAll env ((k, ts) # rest) =
     (case sortTools env ts of
        Inl e \<Rightarrow> Inl e
      | Inr ts' \<Rightarrow>
          (case sortAll env rest of
             Inl e \<Rightarrow> Inl e
           | Inr rest' \<Rightarrow> Inr ((k, ts') # rest')))"

text \<open>
  \<^verbatim>\<open>main\<close>, from the initialisation of the catalog on: the loop over the
  descriptors, the sorts (in the order \<^verbatim>\<open>Object.values\<close> lists the categories) and
  the write.
\<close>

definition main_generate ::
  "env \<Rightarrow> string list \<Rightarrow> string list \<Rightarrow> diag list \<times> (error + catalog)" where
  "main_generate env metadataFiles softwareTypes =
     (let obj0 = fromEntries (map (\<lambda>ty. (ty, [])) softwareTypes) in
      case processAll env metadataFiles obj0 of
        (out, Inl e) \<Rightarrow> (out, Inl e)
      | (out, Inr obj) \<Rightarrow>
          (case sortAll env (obj_entries obj) of
             Inl e \<Rightarrow> (out, Inl e)
           | Inr sorted_tools \<Rightarrow>
               (case writeFileSync env (path_join (cwd env) ''catalog.json'') of
                  Inl e \<Rightarrow> (out, Inl e)
                | Inr u \<Rightarrow>
                    (out @ [LogSummary (sum_list (map (\<lambda>kv. length (snd kv)) sorted_tools))],
                     Inr \<lparr> version = ''1.0.0'', generated_at = clock_now env,
                           tools = sorted_tools \<rparr>))))"

definition main_try :: "env \<Rightarrow> diag list \<times> (error + catalog)" where
  "main_try env =
     (let toolsDir = path_join (cwd env) ''tools'' in
      if \<not> existsSync env toolsDir then ([LogGenerating], Inl ToolsDirNotFound)
      else
        (case findMetadataFiles env toolsDir of
           Inl e \<Rightarrow> ([LogGenerating], Inl e)
         | Inr metadataFiles \<Rightarrow>
             (case discoverSoftwareTypes env toolsDir of
                Inl e \<Rightarrow> ([LogGenerating], Inl e)
              | Inr softwareTypes \<Rightarrow>
                  (case main_generate env metadataFiles softwareTypes of
                     (out, r) \<Rightarrow>
                       ([LogGenerating,
                         LogFound (length metadataFiles) (length softwareTypes),
                         LogSoftwareTypes softwareTypes] @ out, r)))))"

text \<open>
  The run: the exit status, the document written to \<^verbatim>\<open>catalog.json\<close> (if any) and
  the console. An exception that reaches the \<^verbatim>\<open>catch\<close> of \<^verbatim>\<open>main\<close> ends the
  process with status 1.
\<close>

record outcome =
  exit_code :: nat
  written :: "catalog option"
  console :: "diag list"

definition main :: "env \<Rightarrow> outcome" where
  "main env =
     (case main_try env of
        (out, Inl e) \<Rightarrow> \<lparr> exit_code = 1, written = None, console = out @ [ErrorFatal e] \<rparr>
      | (out, Inr doc) \<Rightarrow> \<lparr> exit_code = 0, written = Some doc, console = out \<rparr>)"

section \<open>Notions the properties are stated with\<close>

text \<open>
  A directory entry's name: not empty, not \<^verbatim>\<open>.\<close> or \<^verbatim>\<open>..\<close>, without a slash.
  \<open>abs_path segs\<close> is the absolute path with these segments, the form in which
  \<^verbatim>\<open>process.cwd()\<close> returns the working directory.
\<close>

definition valid_name :: "string \<Rightarrow> bool" where
  "valid_name s = (s \<noteq> [] \<and> s \<noteq> ''.'' \<and> s \<noteq> ''..'' \<and> slash \<notin> set s)"

definition abs_path :: "string list \<Rightarrow> string" where
  "abs_path segs = slash # join_with ''/'' segs"

text \<open>The node reached from \<open>n\<close> by a list of entry names.\<close>

fun descend :: "node \<Rightarrow> string list \<Rightarrow> node option" where
  "descend n [] = Some n"
| "descend (File content) (s # ss) = None"
| "descend (Dir es) (s # ss) =
     (case map_of es s of
        None \<Rightarrow> None
      | Some child \<Rightarrow> descend child ss)"

text \<open>
  A well-formed directory, at every depth: its entries have valid names, each name
  once.
\<close>

fun wf_entries :: "(string \<times> node) list \<Rightarrow> bool" where
  "wf_entries [] = True"
| "wf_entries ((n, File content) # rest) =
     (valid_name n \<and> n \<notin> set (map fst rest) \<and> wf_entries rest)"
| "wf_entries ((n, Dir es) # rest) =
     (valid_name n \<and> n \<notin> set (map fst rest) \<and> wf_entries es \<and> wf_entries rest)"

text \<open>The immediate subdirectories and the regular files of a directory, in listing order.\<close>

definition dir_names :: "(string \<times> node) list \<Rightarrow> string list" where
  "dir_names es = map fst (filter (\<lambda>kv. isDirectory (snd kv)) es)"

definition file_names :: "(string \<times> node) list \<Rightarrow> string list" where
  "file_names es = map fst (filter (\<lambda>kv. isFile (snd kv)) es)"

text \<open>
  The regular files named \<^verbatim>\<open>metadata.json\<close> in a directory, at any depth, each as
  the list of names that leads to it.
\<close>

fun descriptor_paths :: "(string \<times> node) list \<Rightarrow> string list list" where
  "descriptor_paths [] = []"
| "descriptor_paths ((n, File content) # rest) =
     (if n = ''metadata.json'' then [[n]] else []) @ descriptor_paths rest"
| "descriptor_paths ((n, Dir es) # rest) =
     map ((#) n) (descriptor_paths es) @ descriptor_paths rest"

text \<open>
  The non-null results of \<^verbatim>\<open>processTool\<close> over the descriptors, in order, and the
  records among them with a given category.
\<close>

definition results :: "env \<Rightarrow> string list \<Rightarrow> (tool \<times> string) list" where
  "results env files = List.map_filter (\<lambda>p. snd (processTool env p)) files"

definition tools_of :: "string \<Rightarrow> (tool \<times> string) list \<Rightarrow> tool list" where
  "tools_of k rs = map fst (filter (\<lambda>r. snd r = k) rs)"

text \<open>
  A descriptor file whose \<^verbatim>\<open>name\<close>, if the file can be read and parsed and holds a
  truthy one, is a string; and a list of descriptor files that all are so.
\<close>

definition descriptor_name_ok :: "env \<Rightarrow> string \<Rightarrow> bool" where
  "descriptor_name_ok env p =
     (case readFileSync env p of
        Inl e \<Rightarrow> True
      | Inr content \<Rightarrow>
          (case JSON_parse env content of
             None \<Rightarrow> True
           | Some metadata \<Rightarrow>
               (case getProp metadata ''name'' of
                  Inl e \<Rightarrow> True
                | Inr None \<Rightarrow> True
                | Inr (Some v) \<Rightarrow> (if truthy v then string_of v \<noteq> None else True))))"

definition names_are_strings :: "env \<Rightarrow> string list \<Rightarrow> bool" where
  "names_are_strings env files = list_all (descriptor_name_ok env) files"


text \<open>
  A consistent comparator, as \<^verbatim>\<open>Array.prototype.sort\<close> asks for: any two strings
  compare one way or the other, transitively.
\<close>

definition comparator_ok :: "(string \<Rightarrow> string \<Rightarrow> int) \<Rightarrow> bool" where
  "comparator_ok cmp =
     ((\<forall>a b. cmp a b \<le> 0 \<or> cmp b a \<le> 0)
      \<and> (\<forall>a b c. cmp a b \<le> 0 \<longrightarrow> cmp b c \<le> 0 \<longrightarrow> cmp a c \<le> 0))"

text \<open>Two records in ascending order of name, weakly and strictly.\<close>

definition tool_le :: "env \<Rightarrow> tool \<Rightarrow> tool \<Rightarrow> bool" where
  "tool_le env a b =
     (case (string_of (name a), string_of (name b)) of
        (Some s, Some t) \<Rightarrow> localeCompare env s t \<le> 0
      | _ \<Rightarrow> False)"

definition tool_lt :: "env \<Rightarrow> tool \<Rightarrow> tool \<Rightarrow> bool" where
  "tool_lt env a b =
     (case (string_of (name a), string_of (name b)) of
        (Some s, Some t) \<Rightarrow> localeCompare env s t < 0
      | _ \<Rightarrow> False)"

text \<open>The keys of an object in the order they are enumerated.\<close>

definition key_order :: "string list \<Rightarrow> string list" where
  "key_order ks =
     sort_key digits_value (filter isArrayIndex ks) @ filter (\<lambda>k. \<not> isArrayIndex k) ks"


section \<open>Example runs\<close>

text \<open>
  The inputs of the concrete runs below. \<open>example_parse\<close> is \<^verbatim>\<open>JSON.parse\<close> on the
  few descriptor texts they use (any other text is a syntax error), and
  \<open>example_compare\<close> compares by code units. The repository is checked out at
  \<^verbatim>\<open>/repo\<close>, with the given entries in \<^verbatim>\<open>/repo/tools\<close>.
\<close>

definition example_parse :: "string \<Rightarrow> json option" where
  \<open>example_parse s =
     (if s = ''{}'' then Some (JObj [])
      else if s = ''{"name":"A"}'' then Some (JObj [(''name'', JStr ''A'')])
      else if s = ''{"name":""}'' then Some (JObj [(''name'', JStr [])])
      else if s = ''{"name":"B","description":"Second","id":"b-1"}''
        then Some (JObj [(''name'', JStr ''B''), (''description'', JStr ''Second''),
                         (''id'', JStr ''b-1'')])
      else if s = ''{"id":""}'' then Some (JObj [(''id'', JStr [])])
      else if s = ''null'' then Some JNull
      else if s = ''{"name":5}'' then Some (JObj [(''name'', JNum 5)])
      else if s = ''{"name":6}'' then Some (JObj [(''name'', JNum 6)])
      else if s = ''{"name":{"toString":"x"}}''
        then Some (JObj [(''name'', JObj [(''toString'', JStr ''x'')])])
      else if s = ''{"id":[{"toString":1}]}''
        then Some (JObj [(''id'', JArr [JObj [(''toString'', JNum 1)]])])
      else None)\<close>

definition example_compare :: "string \<Rightarrow> string \<Rightarrow> int" where
  "example_compare a b = (if a < b then -1 else if a = b then 0 else 1)"

definition example_env :: "string \<Rightarrow> node \<Rightarrow> env" where
  "example_env dir tree =
     \<lparr> cwd = dir, fs_root = tree, JSON_parse = example_parse,
       git_log = (\<lambda>d. Some (''2024-05-01T10:00:00+02:00'' @ [CHR 0x0A])),
       clock_now = ''2024-06-01T00:00:00.000Z'',
       localeCompare = example_compare,
       engine_sort = (\<lambda>ts. Inl TypeError) \<rparr>"

definition repo :: "(string \<times> node) list \<Rightarrow> env" where
  "repo tools_entries =
     example_env ''/repo''
       (Dir [(''repo'', Dir [(''README.md'', File ''# PegBoard''), (''tools'', Dir tools_entries)])])"

definition tool_dir :: "string \<Rightarrow> (string \<times> node) list \<Rightarrow> node" where
  "tool_dir descriptor others = Dir ((''metadata.json'', File descriptor) # others)"

text \<open>
  A tool \<^verbatim>\<open>a\<close> with a helper file and a data directory, a tool \<^verbatim>\<open>b\<close> without
  its main file, a tool \<^verbatim>\<open>c\<close> with a truncated descriptor, and an empty category.
\<close>

definition basic_tools :: "(string \<times> node) list" where
  \<open>basic_tools =
     [(''blender'',
        Dir [(''a'', tool_dir ''{"name":"A"}''
                       [(''helper.py'', File ''import bpy''), (''tool.py'', File ''pass''),
                        (''data'', Dir [])]),
             (''b'', tool_dir ''{}'' []),
             (''c'', tool_dir ''{"name":'' [(''tool.py'', File ''pass'')])]),
      (''sketchup'', Dir [])]\<close>

text \<open>A tool whose \<^verbatim>\<open>tool.py\<close> is a directory.\<close>

definition dir_main_tools :: "(string \<times> node) list" where
  \<open>dir_main_tools =
     [(''blender'', Dir [(''a'', tool_dir ''{"name":"A"}'' [(''tool.py'', Dir [])])])]\<close>

text \<open>Two categories named by numerals.\<close>

definition numeric_tools :: "(string \<times> node) list" where
  "numeric_tools = [(''10'', Dir []), (''9'', Dir [])]"

text \<open>Two tools with the same display name.\<close>

definition same_name_tools :: "(string \<times> node) list" where
  \<open>same_name_tools =
     [(''blender'',
        Dir [(''a'', tool_dir ''{"name":"A"}'' [(''tool.py'', File ''pass'')]),
             (''b'', tool_dir ''{"name":"A"}'' [(''tool.py'', File ''pass'')])])]\<close>

text \<open>Descriptors with an empty name, with an id, and with an empty id.\<close>

definition field_tools :: "(string \<times> node) list" where
  \<open>field_tools =
     [(''sketchup'',
        Dir [(''a'', tool_dir ''{"name":""}'' [(''tool.rb'', File ''# a'')]),
             (''b'', tool_dir ''{"name":"B","description":"Second","id":"b-1"}''
                       [(''tool.rb'', File ''# b'')]),
             (''c'', tool_dir ''{"id":""}'' [(''tool.rb'', File ''# c'')])])]\<close>

text \<open>A descriptor directly inside a category directory, and one nested below a tool.\<close>

definition misplaced_tools :: "(string \<times> node) list" where
  \<open>misplaced_tools =
     [(''blender'',
        Dir [(''metadata.json'', File ''{"name":"A"}''), (''tool.py'', File ''pass''),
             (''a'', Dir [(''sub'', tool_dir ''{}'' [(''tool.py'', File ''pass'')])])])]\<close>

text \<open>The same checkout with a failing \<^verbatim>\<open>git\<close>, and one below a directory named \<^verbatim>\<open>tools\<close>.\<close>

definition no_git :: "env \<Rightarrow> env" where
  "no_git env = env \<lparr> git_log := (\<lambda>d. None) \<rparr>"

definition nested_checkout :: env where
  \<open>nested_checkout =
     example_env ''/srv/tools/repo''
       (Dir [(''srv'', Dir [(''tools'', Dir [(''repo'', Dir [(''tools'',
          Dir [(''blender'',
                 Dir [(''metadata.json'', File ''{"name":"A"}''),
                      (''tool.py'', File ''pass'')])])])])])])\<close>




text \<open>
  A descriptor that parses but lies beside \<^verbatim>\<open>tools\<close>, and tools whose name or id has
  no string form.
\<close>

definition stray_descriptor :: env where
  \<open>stray_descriptor =
     example_env ''/repo''
       (Dir [(''repo'', Dir [(''metadata.json'', File ''{}''), (''tools'', Dir [])])])\<close>

definition unprintable_tools :: "(string \<times> node) list" where
  \<open>unprintable_tools =
     [(''blender'',
        Dir [(''a'', tool_dir ''{"name":{"toString":"x"}}'' [(''tool.py'', File ''pass'')]),
             (''b'', tool_dir ''{"id":[{"toString":1}]}'' [(''tool.py'', File ''pass'')]),
             (''c'', tool_dir ''{"name":"A"}'' [(''tool.py'', File ''pass'')])])]\<close>





section \<open>Paths built from valid names\<close>

text \<open>
  On a path made of valid names the functions of \<^verbatim>\<open>path\<close> act on the list of
  segments: \<^verbatim>\<open>join\<close> appends a segment, \<^verbatim>\<open>dirname\<close> removes the last one and
  \<^verbatim>\<open>basename\<close> returns it.
\<close>

lemma split_on_nonempty: "split_on c s \<noteq> []"
  by (induction s) (auto split: list.splits)

lemma split_on_no_sep: "c \<notin> set s \<Longrightarrow> split_on c s = [s]"
  by (induction s) auto

lemma split_on_sep: "c \<notin> set s \<Longrightarrow> split_on c (s @ c # t) = s # split_on c t"
  by (induction s) auto

lemma join_with_Cons: "ss \<noteq> [] \<Longrightarrow> join_with sep (s # ss) = s @ sep @ join_with sep ss"
  by (cases ss) auto

lemma join_with_snoc: "ss \<noteq> [] \<Longrightarrow> join_with sep (ss @ [s]) = join_with sep ss @ sep @ s"
  by (induction sep ss rule: join_with.induct) auto

lemma split_join_prefix:
  "list_all (\<lambda>s. c \<notin> set s) pre \<Longrightarrow> post \<noteq> [] \<Longrightarrow>
   split_on c (join_with [c] (pre @ post)) = pre @ split_on c (join_with [c] post)"
proof (induction pre)
  case Nil
  then show ?case by simp
next
  case (Cons s pre)
  then have "pre @ post \<noteq> []" by simp
  then have "join_with [c] ((s # pre) @ post) = s @ c # join_with [c] (pre @ post)"
    by (simp add: join_with_Cons)
  with Cons show ?case by (simp add: split_on_sep)
qed

lemma split_join:
  "list_all (\<lambda>s. c \<notin> set s) segs \<Longrightarrow> segs \<noteq> [] \<Longrightarrow> split_on c (join_with [c] segs) = segs"
proof -
  assume a: "list_all (\<lambda>s. c \<notin> set s) segs" "segs \<noteq> []"
  then have "segs = butlast segs @ [last segs]" by simp
  moreover have "split_on c (join_with [c] (butlast segs @ [last segs])) = butlast segs @ split_on c (join_with [c] [last segs])"
    using a by (intro split_join_prefix) (auto simp: list_all_iff dest: in_set_butlastD)
  moreover have "c \<notin> set (last segs)" using a by (auto simp: list_all_iff)
  ultimately show ?thesis by (simp add: split_on_no_sep)
qed

lemma split_abs_path:
  "list_all (\<lambda>s. slash \<notin> set s) segs \<Longrightarrow> segs \<noteq> [] \<Longrightarrow> split_on slash (abs_path segs) = [] # segs"
  using split_join[of slash segs] by (simp add: abs_path_def slash_def)

lemma abs_path_snoc:
  "segs \<noteq> [] \<Longrightarrow> abs_path (segs @ [n]) = abs_path segs @ ''/'' @ n"
  by (simp add: abs_path_def join_with_snoc)

lemma valid_name_no_slash: "valid_name s \<Longrightarrow> slash \<notin> set s"
  by (simp add: valid_name_def)

lemma normalize_valid:
  "list_all valid_name segs \<Longrightarrow> foldl (normalize_step b) acc segs = rev segs @ acc"
  by (induction segs arbitrary: acc) (auto simp: valid_name_def)

lemma takeWhile_upto: "c \<notin> set s \<Longrightarrow> takeWhile (\<lambda>ch. ch \<noteq> c) (s @ c # r) = s"
  by (induction s) auto

lemma dropWhile_upto: "c \<notin> set s \<Longrightarrow> dropWhile (\<lambda>ch. ch \<noteq> c) (s @ c # r) = c # r"
  by (induction s) auto

lemma dropWhile_all: "c \<notin> set s \<Longrightarrow> dropWhile (\<lambda>ch. ch \<noteq> c) s = []"
  by (induction s) auto

lemma dropWhile_sep_none: "s \<noteq> [] \<Longrightarrow> hd s \<noteq> c \<Longrightarrow> dropWhile (\<lambda>ch. ch = c) (s @ r) = s @ r"
  by (cases s) auto

lemma join_with_last:
  "segs \<noteq> [] \<Longrightarrow> list_all (\<lambda>s. s \<noteq> []) segs \<Longrightarrow>
   join_with sep segs \<noteq> [] \<and> last (join_with sep segs) = last (last segs)"
  by (induction sep segs rule: join_with.induct) auto

lemma normalize_abs_path:
  assumes "list_all valid_name segs" "segs \<noteq> []"
  shows "path_normalize (abs_path segs) = abs_path segs"
proof -
  have ns: "list_all (\<lambda>s. slash \<notin> set s) segs" using assms by (auto simp: list_all_iff valid_name_def)
  have ne: "list_all (\<lambda>s. s \<noteq> []) segs" using assms by (auto simp: list_all_iff valid_name_def)
  have sp: "split_on slash (abs_path segs) = [] # segs" using ns assms by (simp add: split_abs_path)
  have q: "normalizeString (abs_path segs) False = join_with ''/'' segs"
    using assms by (simp add: normalizeString_def sp normalize_valid)
  have lastne: "last segs \<noteq> []" using assms ne by (auto simp: list_all_iff)
  have jl: "join_with ''/'' segs \<noteq> []" "last (join_with ''/'' segs) = last (last segs)"
    using join_with_last[OF assms(2) ne] by auto
  have "last (last segs) \<noteq> slash" using ns assms lastne
    by (metis last_in_set list_all_iff)
  then have tr: "last (abs_path segs) \<noteq> slash" using jl by (simp add: abs_path_def)
  show ?thesis
    using q tr jl
    by (simp add: path_normalize_def abs_path_def Let_def slash_def)
qed

lemma path_join_abs:
  assumes "list_all valid_name segs" "valid_name n"
  shows "path_join (abs_path segs) n = abs_path (segs @ [n])"
proof (cases "segs = []")
  case True
  have "split_on slash (''//'' @ n) = [[], [], n]"
    using assms(2) by (simp add: slash_def valid_name_def split_on_no_sep)
  then have q: "normalizeString (''//'' @ n) False = n"
    using assms(2) by (simp add: normalizeString_def valid_name_def)
  have "last n \<noteq> slash" using assms(2) by (metis last_in_set valid_name_def)
  then show ?thesis using True assms(2) q
    by (simp add: path_join_def abs_path_def path_normalize_def Let_def valid_name_def slash_def)
next
  case False
  have v: "list_all valid_name (segs @ [n])" using assms by simp
  have "path_join (abs_path segs) n = path_normalize (abs_path segs @ ''/'' @ n)"
    using assms(2) by (simp add: path_join_def abs_path_def valid_name_def)
  also have "\<dots> = path_normalize (abs_path (segs @ [n]))" using False by (simp add: abs_path_snoc)
  also have "\<dots> = abs_path (segs @ [n])" using v by (intro normalize_abs_path) auto
  finally show ?thesis .
qed

lemma basename_abs:
  assumes "valid_name n"
  shows "path_basename (abs_path (segs @ [n])) = n"
proof -
  have ns: "slash \<notin> set (rev n)" and ne: "rev n \<noteq> []" using assms by (auto simp: valid_name_def)
  obtain pre where p: "abs_path (segs @ [n]) = pre @ slash # n"
    by (cases "segs = []") (auto simp: abs_path_def join_with_snoc slash_def)
  have hd: "hd (rev n) \<noteq> slash" using ns ne by (metis list.set_sel(1))
  have "dropWhile (\<lambda>ch. ch = slash) (rev n @ slash # rev pre) = rev n @ slash # rev pre"
    using ne hd by (rule dropWhile_sep_none)
  moreover have "takeWhile (\<lambda>ch. ch \<noteq> slash) (rev n @ slash # rev pre) = rev n"
    using ns by (rule takeWhile_upto)
  ultimately show ?thesis by (simp add: path_basename_def p)
qed

lemma dirname_abs:
  assumes "list_all valid_name segs" "valid_name n"
  shows "path_dirname (abs_path (segs @ [n])) = abs_path segs"
proof -
  have ns: "slash \<notin> set (rev n)" and ne: "rev n \<noteq> []" using assms by (auto simp: valid_name_def)
  have hd: "hd (rev n) \<noteq> slash" using ns ne by (metis list.set_sel(1))
  show ?thesis
  proof (cases "segs = []")
    case True
    have e1: "dropWhile (\<lambda>ch. ch = slash) (rev n) = rev n"
      using dropWhile_sep_none[OF ne hd, of "[]"] by simp
    have e2: "dropWhile (\<lambda>ch. ch \<noteq> slash) (rev n) = []" using ns by (rule dropWhile_all)
    have "path_dirname (abs_path ([] @ [n])) = ''/''"
      by (simp add: path_dirname_def abs_path_def e1 e2)
    then show ?thesis using True by (simp add: abs_path_def slash_def)
  next
    case False
    have nes: "list_all (\<lambda>s. s \<noteq> []) segs" using assms by (auto simp: list_all_iff valid_name_def)
    have j: "join_with ''/'' segs \<noteq> []" using join_with_last[OF False nes] by simp
    have ap: "abs_path (segs @ [n]) = slash # (join_with ''/'' segs @ slash # n)"
      using False by (simp add: abs_path_def join_with_snoc slash_def)
    have d1: "dropWhile (\<lambda>ch. ch = slash) (rev n @ slash # rev (join_with ''/'' segs))
                = rev n @ slash # rev (join_with ''/'' segs)"
      using ne hd by (rule dropWhile_sep_none)
    have d2: "dropWhile (\<lambda>ch. ch \<noteq> slash) (rev n @ slash # rev (join_with ''/'' segs))
                = slash # rev (join_with ''/'' segs)"
      using ns by (rule dropWhile_upto)
    show ?thesis using j by (simp add: path_dirname_def ap d1 d2) (simp add: abs_path_def)
  qed
qed

section \<open>Resolution, the anchor search and the scan\<close>

text \<open>
  An absolute path of valid names resolves to the node its segments lead to; the
  category of such a path is the segment after the first \<^verbatim>\<open>tools\<close>; the scan returns
  the path of every descriptor in the tree.
\<close>

lemma walk_descend: "list_all valid_name segs \<Longrightarrow> walk cur up segs = descend cur segs"
proof (induction segs arbitrary: cur up)
  case Nil
  then show ?case by simp
next
  case (Cons s segs)
  then show ?case
    by (cases cur) (auto simp: valid_name_def split: option.splits)
qed

lemma descend_append:
  "descend n (a @ b) = (case descend n a of None \<Rightarrow> None | Some c \<Rightarrow> descend c b)"
proof (induction a arbitrary: n)
  case Nil
  then show ?case by simp
next
  case (Cons s a)
  then show ?case by (cases n) (auto split: option.splits)
qed

lemma resolve_abs:
  assumes "list_all valid_name segs" "segs \<noteq> []"
  shows "resolve env (abs_path segs) = descend (fs_root env) segs"
proof -
  have ns: "list_all (\<lambda>s. slash \<notin> set s) segs" using assms by (auto simp: list_all_iff valid_name_def)
  have sp: "split_on slash (abs_path segs) = [] # segs" using ns assms by (simp add: split_abs_path)
  obtain s ss where segs: "segs = s # ss" using assms(2) by (cases segs) auto
  have "walk (fs_root env) [] ([] # segs) = descend (fs_root env) segs"
    using assms(1) walk_descend[OF assms(1), of "fs_root env" "[]"]
    by (cases "fs_root env") (auto simp: segs)
  moreover have "abs_path segs \<noteq> []" "hd (abs_path segs) = slash"
    by (simp_all add: abs_path_def)
  ultimately show ?thesis by (simp add: resolve_def sp)
qed

lemma descend_child:
  "valid_name n \<Longrightarrow> descend (Dir es) [n] = map_of es n"
  by (auto split: option.splits)

lemma resolve_child:
  assumes "list_all valid_name segs" "segs \<noteq> []" "valid_name n"
    and "resolve env (abs_path segs) = Some (Dir es)"
  shows "resolve env (path_join (abs_path segs) n) = map_of es n"
proof -
  have "resolve env (path_join (abs_path segs) n) = descend (fs_root env) (segs @ [n])"
    using assms by (simp add: path_join_abs resolve_abs)
  also have "\<dots> = descend (Dir es) [n]"
    using assms by (simp add: descend_append resolve_abs)
  finally show ?thesis by (simp split: option.splits)
qed

lemma indexOf_first: "x \<notin> set pre \<Longrightarrow> indexOf (pre @ x # post) x = int (length pre)"
  by (induction pre) (auto simp: Let_def)

lemma indexOf_ge: "indexOf xs x \<ge> -1"
  by (induction xs) (auto simp: Let_def)

lemma indexOf_absent: "(indexOf xs x = -1) = (x \<notin> set xs)"
proof (induction xs)
  case Nil
  then show ?case by simp
next
  case (Cons y ys)
  have "indexOf ys x \<ge> -1" by (rule indexOf_ge)
  then show ?case using Cons by (auto simp: Let_def)
qed

lemma replace_no_backslash: "backslash \<notin> set s \<Longrightarrow> replace_backslashes s = s"
  by (induction s) (auto simp: replace_backslashes_def)

lemma replace_append: "replace_backslashes (a @ b) = replace_backslashes a @ replace_backslashes b"
  by (simp add: replace_backslashes_def)

lemma replace_join:
  "replace_backslashes (join_with ''/'' xs) = join_with ''/'' (map replace_backslashes xs)"
  by (induction "''/''" xs rule: join_with.induct)
     (auto simp: replace_append, auto simp: replace_backslashes_def backslash_def slash_def)

lemma replace_no_slash_free: "slash \<in> set (replace_backslashes s) \<Longrightarrow> backslash \<notin> set s \<Longrightarrow> slash \<in> set s"
  by (simp add: replace_no_backslash)

lemma extractSoftwareType_abs:
  assumes v: "list_all (\<lambda>s. slash \<notin> set s) (segs @ [c])"
    and nb: "list_all (\<lambda>s. backslash \<notin> set s) (segs @ [c])"
    and nt: "''tools'' \<notin> set segs"
  shows "extractSoftwareType (abs_path (segs @ ''tools'' # c # rest)) = Inr c"
proof -
  let ?pre = "segs @ [''tools'', c]"
  let ?rest = "map replace_backslashes rest"
  have rt: "replace_backslashes ''tools'' = ''tools''"
    by (simp add: replace_backslashes_def backslash_def)
  have "map replace_backslashes segs = segs"
    using nb by (intro map_idI) (auto simp: replace_no_backslash list_all_iff)
  moreover have "replace_backslashes c = c" using nb by (simp add: replace_no_backslash)
  ultimately have m: "map replace_backslashes (segs @ ''tools'' # c # rest) = ?pre @ ?rest"
    using rt by simp
  have pre_ok: "list_all (\<lambda>s. slash \<notin> set s) ?pre"
    using v by (auto simp: slash_def)
  have "\<exists>X. split_on slash (join_with [slash] (?pre @ ?rest)) = ?pre @ X"
  proof (cases "?rest = []")
    case True
    then show ?thesis using split_join[OF pre_ok] by auto
  next
    case False
    then show ?thesis using split_join_prefix[OF pre_ok False] by auto
  qed
  then obtain X where X: "split_on slash (join_with [slash] (?pre @ ?rest)) = ?pre @ X" by blast
  have "replace_backslashes (abs_path (segs @ ''tools'' # c # rest)) = slash # join_with [slash] (?pre @ ?rest)"
    using replace_join[of "segs @ ''tools'' # c # rest"] m
    by (simp add: abs_path_def replace_backslashes_def slash_def backslash_def)
  then have parts: "split_on slash (replace_backslashes (abs_path (segs @ ''tools'' # c # rest)))
                = ([] # segs) @ ''tools'' # (c # X)"
    using X by simp
  have nt': "''tools'' \<notin> set ([] # segs)" using nt by simp
  have idx: "indexOf (([] # segs) @ ''tools'' # (c # X)) ''tools'' = int (length ([] # segs))"
    using nt' by (rule indexOf_first)
  have nth: "(([] # segs) @ ''tools'' # (c # X)) ! (Suc (Suc (length segs))) = c"
    by (simp add: nth_append)
  show ?thesis
    unfolding extractSoftwareType_def Let_def parts idx
    using nth by (simp add: nat_add_distrib)
qed

lemma traverse_abs:
  "wf_entries es \<Longrightarrow> list_all valid_name segs \<Longrightarrow>
   traverse (abs_path segs) es = map (\<lambda>rel. abs_path (segs @ rel)) (descriptor_paths es)"
proof (induction es arbitrary: segs rule: wf_entries.induct)
  case 1
  then show ?case by simp
next
  case (2 n content rest)
  have "valid_name ''metadata.json''" by (simp add: valid_name_def slash_def)
  with 2 show ?case by (simp add: path_join_abs)
next
  case (3 n es rest)
  have "list_all valid_name (segs @ [n])" using 3 by simp
  then have "traverse (abs_path (segs @ [n])) es
        = map (\<lambda>rel. abs_path ((segs @ [n]) @ rel)) (descriptor_paths es)"
    using 3 by (intro "3.IH"(1)) auto
  then show ?case using 3 by (simp add: path_join_abs comp_def)
qed


section \<open>What a returned record says about the run of the processor\<close>

lemma processTool_checked_Some:
  assumes "processTool_checked env p metadata c = (out, Inr (Some (t, c')))"
  shows "c' = c \<and> existsSync env (path_join (path_dirname p) (snd (getMainFileName c)))
       \<and> (\<exists>deps. snd (findDependencies env p c) = Inr deps
             \<and> buildTool metadata (extractToolName p) deps
                  (snd (getLastCommitDate env (path_dirname p))) = Inr t)
       \<and> (\<exists>line. processTool_log metadata t c = Inr line)"
  using assms
  by (auto simp: processTool_checked_def verifyMainToolFile_def Let_def
           split: prod.splits if_splits sum.splits)

lemma processTool_checked_built:
  assumes "existsSync env (path_join (path_dirname p) (snd (getMainFileName c)))"
    and "snd (findDependencies env p c) = Inr deps"
    and "buildTool metadata (extractToolName p) deps
           (snd (getLastCommitDate env (path_dirname p))) = Inr t"
    and "processTool_log metadata t c = Inr line"
  shows "\<exists>out. processTool_checked env p metadata c = (out, Inr (Some (t, c)))"
  using assms
  by (auto simp: processTool_checked_def verifyMainToolFile_def Let_def
           split: prod.splits if_splits sum.splits)

lemma processTool_Some:
  assumes "processTool env p = (out, Some (t, c))"
  shows "\<exists>content metadata deps.
           readFileSync env p = Inr content \<and> JSON_parse env content = Some metadata
         \<and> extractSoftwareType p = Inr c
         \<and> existsSync env (path_join (path_dirname p) (snd (getMainFileName c)))
         \<and> snd (findDependencies env p c) = Inr deps
         \<and> buildTool metadata (extractToolName p) deps
              (snd (getLastCommitDate env (path_dirname p))) = Inr t
         \<and> (\<exists>line. processTool_log metadata t c = Inr line)"
proof -
  from assms obtain out' where t: "processTool_try env p = (out', Inr (Some (t, c)))"
    by (auto simp: processTool_def split: prod.splits sum.splits)
  then obtain content metadata c0 where
    a: "readFileSync env p = Inr content" "JSON_parse env content = Some metadata"
       "extractSoftwareType p = Inr c0"
       "processTool_checked env p metadata c0 = (out', Inr (Some (t, c)))"
    by (auto simp: processTool_try_def split: sum.splits option.splits)
  from processTool_checked_Some[OF a(4)] a show ?thesis by auto
qed

lemma buildTool_Inr:
  assumes "buildTool metadata toolName deps date = Inr t"
  shows "\<exists>n d i. getProp metadata ''name'' = Inr n \<and> getProp metadata ''description'' = Inr d
           \<and> getProp metadata ''id'' = Inr i
           \<and> name t = or_default n (JStr toolName)
           \<and> description t = or_default d (JStr [])
           \<and> folder t = toolName \<and> updated_at t = date
           \<and> dependencies t = (if deps = [] then None else Some deps)
           \<and> tool_id t = (if truthy_prop i then i else None)"
  using assms by (auto simp: buildTool_def split: sum.splits)

lemma processTool_built:
  assumes "readFileSync env p = Inr content" "JSON_parse env content = Some metadata"
    and "extractSoftwareType p = Inr c"
    and "existsSync env (path_join (path_dirname p) (snd (getMainFileName c)))"
    and "snd (findDependencies env p c) = Inr deps"
    and "buildTool metadata (extractToolName p) deps
           (snd (getLastCommitDate env (path_dirname p))) = Inr t"
    and "processTool_log metadata t c = Inr line"
  shows "\<exists>out. processTool env p = (out, Some (t, c))"
proof -
  from processTool_checked_built[OF assms(4-7)] obtain out where
    "processTool_checked env p metadata c = (out, Inr (Some (t, c)))" by blast
  then show ?thesis using assms(1-3) by (simp add: processTool_def processTool_try_def)
qed

lemma processTool_log_Inr:
  assumes "processTool_log metadata t c = Inr line"
  shows "line = LogProcessed (name t) c \<and> \<not> toString_throws (name t)"
  using assms by (auto simp: processTool_log_def split: sum.splits if_splits)

section \<open>Category discovery and aggregation\<close>

lemma wf_entries_names: "wf_entries es \<Longrightarrow> list_all valid_name (map fst es) \<and> distinct (map fst es)"
  by (induction es rule: wf_entries.induct) auto

lemma resolve_root:
  "resolve env (abs_path []) = (if isDirectory (fs_root env) then Some (fs_root env) else None)"
  by (cases "fs_root env") (simp_all add: resolve_def abs_path_def slash_def)

lemma resolve_child':
  assumes "list_all valid_name segs" "valid_name n"
    and "resolve env (abs_path segs) = Some (Dir es)"
  shows "resolve env (path_join (abs_path segs) n) = map_of es n"
proof (cases "segs = []")
  case False
  then show ?thesis using assms by (simp add: resolve_child)
next
  case True
  then have r: "fs_root env = Dir es" using assms(3) by (simp add: resolve_root split: if_splits)
  have "resolve env (path_join (abs_path segs) n) = descend (fs_root env) [n]"
    using assms True by (simp add: path_join_abs resolve_abs)
  then show ?thesis using r by (simp split: option.splits)
qed

text \<open>
  What \<^verbatim>\<open>readdirSync\<close> and \<^verbatim>\<open>statSync\<close> return for a directory of the tree and
  its entries: the names and nodes that \<open>traverse\<close> runs over.
\<close>

lemma directory_reads:
  assumes "list_all valid_name segs" "resolve env (abs_path segs) = Some (Dir es)"
    and "wf_entries es" "(n, c) \<in> set es"
  shows "readdirSync env (abs_path segs) = Inr (map fst es)
       \<and> statSync env (path_join (abs_path segs) n) = Inr c"
proof -
  have names: "list_all valid_name (map fst es)" "distinct (map fst es)"
    using wf_entries_names[OF assms(3)] by auto
  have "valid_name n" using names(1) assms(4) by (auto simp: list_all_iff)
  moreover have "map_of es n = Some c" using names(2) assms(4) by simp
  ultimately have "resolve env (path_join (abs_path segs) n) = Some c"
    using resolve_child'[OF assms(1) _ assms(2), of n] by simp
  then show ?thesis using assms(2) by (simp add: readdirSync_def statSync_def)
qed

lemma discover_loop_aux:
  assumes "list_all valid_name segs" "resolve env (abs_path segs) = Some (Dir es)"
    and "list_all valid_name (map fst es)" "distinct (map fst es)"
  shows "set xs \<subseteq> set es \<Longrightarrow>
     foldl (\<lambda>acc entry.
              case acc of
                Inl e \<Rightarrow> Inl e
              | Inr softwareTypes \<Rightarrow>
                  (case statSync env (path_join (abs_path segs) entry) of
                     Inl e \<Rightarrow> Inl e
                   | Inr st \<Rightarrow>
                       Inr (if isDirectory st then softwareTypes @ [entry]
                            else softwareTypes)))
       (Inr acc) (map fst xs) = Inr (acc @ dir_names xs)"
proof (induction xs arbitrary: acc)
  case Nil
  then show ?case by (simp add: dir_names_def)
next
  case (Cons x xs)
  obtain n c where x: "x = (n, c)" by (cases x)
  have mem: "(n, c) \<in> set es" using Cons.prems x by auto
  then have "map_of es n = Some c" using assms(4) by simp
  moreover have "valid_name n" using mem assms(3) by (auto simp: list_all_iff)
  ultimately have st: "statSync env (path_join (abs_path segs) n) = Inr c"
    using resolve_child'[OF assms(1) _ assms(2), of n] by (simp add: statSync_def)
  show ?case using Cons st x by (simp add: dir_names_def)
qed

lemma discoverSoftwareTypes_abs:
  assumes "list_all valid_name segs" "resolve env (abs_path segs) = Some (Dir es)"
    and "list_all valid_name (map fst es)" "distinct (map fst es)"
  shows "discoverSoftwareTypes env (abs_path segs) = Inr (sort (dir_names es))"
  using discover_loop_aux[OF assms, of es "[]"] assms(2)
  by (simp add: discoverSoftwareTypes_def discoverSoftwareTypes_loop_def readdirSync_def)

lemma obj_set_fresh: "k \<notin> set (map fst obj) \<Longrightarrow> obj_set obj k v = obj @ [(k, v)]"
  by (simp add: obj_set_def map_of_eq_None_iff)

lemma fromEntries_aux:
  "distinct (map fst (acc @ kvs)) \<Longrightarrow>
   foldl (\<lambda>obj kv. obj_set obj (fst kv) (snd kv)) acc kvs = acc @ kvs"
proof (induction kvs arbitrary: acc)
  case Nil
  then show ?case by simp
next
  case (Cons kv kvs)
  then have "obj_set acc (fst kv) (snd kv) = acc @ [kv]" by (simp add: obj_set_fresh)
  moreover have "distinct (map fst ((acc @ [kv]) @ kvs))" using Cons.prems by simp
  ultimately show ?case using Cons.IH[of "acc @ [kv]"] by simp
qed

lemma fromEntries_distinct:
  "distinct ks \<Longrightarrow> fromEntries (map (\<lambda>k. (k, v)) ks) = map (\<lambda>k. (k, v)) ks"
  using fromEntries_aux[of "[]" "map (\<lambda>k. (k, v)) ks"]
  by (simp add: fromEntries_def comp_def)

lemma tools_of_Cons:
  "tools_of k ((t, c) # rs) = (if c = k then t # tools_of k rs else tools_of k rs)"
  by (simp add: tools_of_def)

lemma tools_of_Nil: "tools_of k [] = []"
  by (simp add: tools_of_def)

lemma addTool_Inr:
  assumes "addTool obj t c = (out, Inr obj')"
  shows "obj' = map (\<lambda>kv. (fst kv, snd kv @ tools_of (fst kv) [(t, c)])) obj"
proof (cases "map_of obj c")
  case None
  then have "\<forall>kv\<in>set obj. fst kv \<noteq> c" by (auto simp: map_of_eq_None_iff)
  then have "map (\<lambda>kv. (fst kv, snd kv @ tools_of (fst kv) [(t, c)])) obj = obj"
    by (intro map_idI) (auto simp: tools_of_Cons tools_of_Nil)
  moreover have "obj' = obj" using assms None by (auto simp: addTool_def split: if_splits)
  ultimately show ?thesis by simp
next
  case (Some ts)
  then have "obj' = map (\<lambda>kv. if fst kv = c then (fst kv, snd kv @ [t]) else kv) obj"
    using assms by (auto simp: addTool_def)
  also have "\<dots> = map (\<lambda>kv. (fst kv, snd kv @ tools_of (fst kv) [(t, c)])) obj"
    by (intro map_cong) (auto simp: tools_of_Cons tools_of_Nil)
  finally show ?thesis .
qed

lemma results_Cons:
  "results env (p # ps) =
     (case snd (processTool env p) of None \<Rightarrow> [] | Some r \<Rightarrow> [r]) @ results env ps"
  by (simp add: results_def List.map_filter_simps split: option.splits)

lemma tools_of_append: "tools_of k (a @ b) = tools_of k a @ tools_of k b"
  by (simp add: tools_of_def)

lemma processAll_Inr:
  "processAll env files obj = (out, Inr obj') \<Longrightarrow>
   obj' = map (\<lambda>kv. (fst kv, snd kv @ tools_of (fst kv) (results env files))) obj"
proof (induction files arbitrary: obj out)
  case Nil
  then show ?case by (simp add: results_def List.map_filter_simps tools_of_def)
next
  case (Cons p ps)
  obtain out1 r where pt: "processTool env p = (out1, r)" by (cases "processTool env p")
  show ?case
  proof (cases r)
    case None
    with Cons.prems pt obtain out3 where "processAll env ps obj = (out3, Inr obj')"
      by (auto split: prod.splits)
    from Cons.IH[OF this] show ?thesis using pt None by (simp add: results_Cons)
  next
    case (Some tc)
    obtain t c where tc: "tc = (t, c)" by (cases tc)
    with Cons.prems pt Some obtain out2 obj1 out3 where
      a: "addTool obj t c = (out2, Inr obj1)" and b: "processAll env ps obj1 = (out3, Inr obj')"
      by (auto split: prod.splits sum.splits)
    have "tools_of k [(t, c)] @ tools_of k rs = tools_of k ((t, c) # rs)" for k rs
      by (simp add: tools_of_Cons tools_of_Nil)
    with Cons.IH[OF b] addTool_Inr[OF a] show ?thesis
      using pt Some tc by (simp add: results_Cons comp_def)
  qed
qed


lemma sortAll_Inr:
  "sortAll env xs = Inr ys \<Longrightarrow>
   map fst ys = map fst xs \<and> (\<forall>(k, ts) \<in> set ys. \<exists>ts0. (k, ts0) \<in> set xs \<and> sortTools env ts0 = Inr ts)"
proof (induction xs arbitrary: ys)
  case Nil
  then show ?case by simp
next
  case (Cons x xs)
  obtain k ts0 where x: "x = (k, ts0)" by (cases x)
  from Cons.prems x obtain ts rest where
    a: "sortTools env ts0 = Inr ts" "sortAll env xs = Inr rest" "ys = (k, ts) # rest"
    by (auto split: sum.splits)
  from Cons.IH[OF a(2)] a x show ?case by auto
qed


lemma set_obj_entries: "set (obj_entries obj) = set obj"
  by (auto simp: obj_entries_def)

lemma map_fst_obj_entries:
  "map fst (obj_entries obj) =
     sort_key digits_value (filter isArrayIndex (map fst obj)) @ filter (\<lambda>k. \<not> isArrayIndex k) (map fst obj)"
proof -
  have ins: "map g (insort_key (\<lambda>x. f (g x)) x xs) = insort_key f (g x) (map g xs)"
    for f :: "'b \<Rightarrow> int" and g :: "'c \<Rightarrow> 'b" and x xs
    by (induction xs) auto
  have srt: "map g (sort_key (\<lambda>x. f (g x)) xs) = sort_key f (map g xs)"
    for f :: "'b \<Rightarrow> int" and g :: "'c \<Rightarrow> 'b" and xs
    by (induction xs) (auto simp: ins)
  show ?thesis
    by (simp add: obj_entries_def srt filter_map comp_def)
qed

lemma main_written:
  assumes "written (main env) = Some doc"
  shows "\<exists>files types out obj.
           findMetadataFiles env (path_join (cwd env) ''tools'') = Inr files
         \<and> discoverSoftwareTypes env (path_join (cwd env) ''tools'') = Inr types
         \<and> processAll env files (fromEntries (map (\<lambda>ty. (ty, [])) types)) = (out, Inr obj)
         \<and> sortAll env (obj_entries obj) = Inr (tools doc)"
  using assms
  by (auto simp: main_def main_try_def main_generate_def Let_def
           split: prod.splits sum.splits if_splits)

section \<open>The sort\<close>

lemma set_insert_by: "set (insert_by cmp x ys) = insert x (set ys)"
  by (induction ys) auto

lemma sorted_insert_by:
  assumes tot: "\<And>a b. cmp a b \<le> 0 \<or> cmp b a \<le> 0"
    and tr: "\<And>a b c. cmp a b \<le> 0 \<Longrightarrow> cmp b c \<le> 0 \<Longrightarrow> cmp a c \<le> 0"
  shows "sorted_wrt (\<lambda>a b. cmp a b \<le> 0) ys \<Longrightarrow> sorted_wrt (\<lambda>a b. cmp a b \<le> 0) (insert_by cmp x ys)"
proof (induction ys)
  case Nil
  then show ?case by simp
next
  case (Cons y ys)
  show ?case
  proof (cases "cmp x y \<le> 0")
    case True
    then have "\<forall>z\<in>set ys. cmp x z \<le> 0" using Cons.prems tr by auto
    then show ?thesis using True Cons.prems by simp
  next
    case False
    then have "cmp y x \<le> 0" using tot[of x y] by simp
    then show ?thesis using False Cons by (auto simp: set_insert_by)
  qed
qed

lemma sorted_sort_by:
  assumes tot: "\<And>a b. cmp a b \<le> 0 \<or> cmp b a \<le> 0"
    and tr: "\<And>a b c. cmp a b \<le> 0 \<Longrightarrow> cmp b c \<le> 0 \<Longrightarrow> cmp a c \<le> 0"
  shows "sorted_wrt (\<lambda>a b. cmp a b \<le> 0) (sort_by cmp xs)"
proof (induction xs)
  case Nil
  then show ?case by (simp add: sort_by_def)
next
  case (Cons x xs)
  then show ?case
    using sorted_insert_by[of cmp "sort_by cmp xs" x, OF tot tr]
    by (simp add: sort_by_def)
qed

lemma set_sort_by: "set (sort_by cmp xs) = set xs"
  by (induction xs) (auto simp: sort_by_def set_insert_by)

lemma mset_insert_by: "mset (insert_by cmp x ys) = add_mset x (mset ys)"
  by (induction ys) auto

lemma mset_sort_by: "mset (sort_by cmp xs) = mset xs"
  by (induction xs) (auto simp: sort_by_def mset_insert_by)

lemma length_insert_by: "length (insert_by cmp x ys) = Suc (length ys)"
  by (induction ys) auto

lemma length_sort_by: "length (sort_by cmp xs) = length xs"
  by (induction xs) (auto simp: sort_by_def length_insert_by)

lemma sort_by_sorted: "sorted_wrt (\<lambda>a b. cmp a b \<le> 0) xs \<Longrightarrow> sort_by cmp xs = xs"
proof (induction xs)
  case Nil
  then show ?case by (simp add: sort_by_def)
next
  case (Cons x xs)
  then have "sort_by cmp xs = xs" by simp
  then have "sort_by cmp (x # xs) = insert_by cmp x xs" by (simp add: sort_by_def)
  then show ?case using Cons.prems by (cases xs) auto
qed

lemma with_names_Some:
  "with_names ts = Some nts \<Longrightarrow>
   map snd nts = ts \<and> (\<forall>(s, t) \<in> set nts. string_of (name t) = Some s)"
  by (induction ts arbitrary: nts) (auto split: option.splits)

lemma with_names_map_snd:
  "(\<forall>(s, t) \<in> set nts. string_of (name t) = Some s) \<Longrightarrow> with_names (map snd nts) = Some nts"
  by (induction nts) auto

lemma with_names_strings:
  "(\<forall>t \<in> set ts. string_of (name t) \<noteq> None) \<Longrightarrow> with_names ts \<noteq> None"
  by (induction ts) (auto split: option.splits)

lemma sortTools_strings:
  assumes ok: "comparator_ok (localeCompare env)"
    and str: "\<forall>t \<in> set ts0. string_of (name t) \<noteq> None"
    and s: "sortTools env ts0 = Inr ts"
  shows "sorted_wrt (tool_le env) ts \<and> sortTools env ts = Inr ts \<and> mset ts = mset ts0"
proof (cases "length ts0 \<le> 1")
  case True
  then have "ts = ts0" using s by (simp add: sortTools_def)
  moreover have "sorted_wrt (tool_le env) ts0" using True
    by (cases ts0) (auto simp: le_Suc_eq)
  ultimately show ?thesis using True by (simp add: sortTools_def)
next
  case False
  let ?cmp = "\<lambda>a b. localeCompare env (fst (a :: string \<times> tool)) (fst (b :: string \<times> tool))"
  obtain nts where nts: "with_names ts0 = Some nts" using with_names_strings[OF str] by auto
  then have ts: "ts = map snd (sort_by ?cmp nts)" using s False by (simp add: sortTools_def)
  have inv: "\<forall>(s, t) \<in> set nts. string_of (name t) = Some s" and m: "map snd nts = ts0"
    using with_names_Some[OF nts] by auto
  have tot: "\<And>a b. ?cmp a b \<le> 0 \<or> ?cmp b a \<le> 0"
    using ok by (auto simp: comparator_ok_def)
  have tr: "\<And>a b c. ?cmp a b \<le> 0 \<Longrightarrow> ?cmp b c \<le> 0 \<Longrightarrow> ?cmp a c \<le> 0"
    using ok unfolding comparator_ok_def by blast
  have srt: "sorted_wrt (\<lambda>a b. ?cmp a b \<le> 0) (sort_by ?cmp nts)"
    by (rule sorted_sort_by[of ?cmp, OF tot tr])
  have inv': "\<forall>(s, t) \<in> set (sort_by ?cmp nts). string_of (name t) = Some s"
    using inv by (simp add: set_sort_by)
  have "sorted_wrt (\<lambda>a b. tool_le env (snd a) (snd b)) (sort_by ?cmp nts)"
  proof (rule sorted_wrt_mono_rel[OF _ srt])
    fix x y
    assume a: "x \<in> set (sort_by ?cmp nts)" "y \<in> set (sort_by ?cmp nts)" "?cmp x y \<le> 0"
    have "string_of (name (snd x)) = Some (fst x)" using inv' a(1) by (cases x) auto
    moreover have "string_of (name (snd y)) = Some (fst y)" using inv' a(2) by (cases y) auto
    ultimately show "tool_le env (snd x) (snd y)" using a(3) by (simp add: tool_le_def)
  qed
  then have sorted: "sorted_wrt (tool_le env) ts" by (simp add: ts sorted_wrt_map)
  have len: "\<not> length ts \<le> 1" using False m by (auto simp: ts length_sort_by)
  have wn: "with_names ts = Some (sort_by ?cmp nts)"
    unfolding ts using inv' by (rule with_names_map_snd)
  have idem: "sort_by ?cmp (sort_by ?cmp nts) = sort_by ?cmp nts"
    using srt by (rule sort_by_sorted)
  have "sortTools env ts = Inr ts" using len wn idem by (simp add: sortTools_def ts)
  moreover have "mset ts = mset ts0"
  proof -
    have "mset ts = image_mset snd (mset (sort_by ?cmp nts))" by (simp add: ts)
    also have "\<dots> = mset (map snd nts)" by (simp add: mset_sort_by)
    finally show ?thesis using m by simp
  qed
  ultimately show ?thesis using sorted by simp
qed

lemma fromEntries_empty_lists:
  "\<forall>kv \<in> set (fromEntries (map (\<lambda>k. (k, [])) ks)). snd kv = []"
proof -
  have "(\<forall>kv \<in> set acc. snd kv = []) \<Longrightarrow>
        \<forall>kv \<in> set (foldl (\<lambda>obj kv. obj_set obj (fst kv) (snd kv)) acc (map (\<lambda>k. (k, [])) ks)). snd kv = []"
    for acc :: "(string \<times> 'a list) list"
  proof (induction ks arbitrary: acc)
    case Nil
    then show ?case by simp
  next
    case (Cons k ks)
    have "\<forall>kv \<in> set (obj_set acc k []). snd kv = []"
      using Cons.prems by (auto simp: obj_set_def)
    from Cons.IH[OF this] show ?case by simp
  qed
  from this[of "[]"] show ?thesis by (simp add: fromEntries_def)
qed

lemma results_mem:
  "(t, c) \<in> set (results env files) \<Longrightarrow> \<exists>p \<in> set files. snd (processTool env p) = Some (t, c)"
  by (auto simp: results_def List.map_filter_def)

lemma processTool_string_name:
  assumes "descriptor_name_ok env p" "snd (processTool env p) = Some (t, c)"
  shows "string_of (name t) \<noteq> None"
proof -
  obtain out where "processTool env p = (out, Some (t, c))"
    using assms(2) by (cases "processTool env p") auto
  from processTool_Some[OF this] obtain content metadata deps where
    a: "readFileSync env p = Inr content" "JSON_parse env content = Some metadata"
       "buildTool metadata (extractToolName p) deps
            (snd (getLastCommitDate env (path_dirname p))) = Inr t"
    by auto
  from buildTool_Inr[OF a(3)] obtain n where
    n: "getProp metadata ''name'' = Inr n" "name t = or_default n (JStr (extractToolName p))"
    by auto
  show ?thesis
  proof (cases n)
    case None
    then show ?thesis using n by simp
  next
    case (Some v)
    then show ?thesis using n a(1,2) assms(1)
      by (cases "truthy v") (auto simp: descriptor_name_ok_def)
  qed
qed

lemma main_lists:
  assumes "written (main env) = Some doc" "(k, ts) \<in> set (tools doc)"
  shows "\<exists>files. findMetadataFiles env (path_join (cwd env) ''tools'') = Inr files
           \<and> sortTools env (tools_of k (results env files)) = Inr ts"
proof -
  from main_written[OF assms(1)] obtain files types out obj where
    a: "findMetadataFiles env (path_join (cwd env) ''tools'') = Inr files"
       "processAll env files (fromEntries (map (\<lambda>ty. (ty, [])) types)) = (out, Inr obj)"
       "sortAll env (obj_entries obj) = Inr (tools doc)"
    by blast
  from sortAll_Inr[OF a(3)] assms(2) obtain ts0 where
    b: "(k, ts0) \<in> set obj" "sortTools env ts0 = Inr ts"
    by (auto simp: set_obj_entries)
  from processAll_Inr[OF a(2)] b(1) obtain kv where
    kv: "kv \<in> set (fromEntries (map (\<lambda>ty. (ty, [])) types))"
        "k = fst kv" "ts0 = snd kv @ tools_of (fst kv) (results env files)"
    by auto
  then have "snd kv = []" using fromEntries_empty_lists by blast
  then show ?thesis using a(1) b(2) kv by auto
qed

lemma tools_of_string_names:
  assumes "names_are_strings env files" "t \<in> set (tools_of k (results env files))"
  shows "string_of (name t) \<noteq> None"
proof -
  from assms(2) have "(t, k) \<in> set (results env files)" by (auto simp: tools_of_def)
  from results_mem[OF this] obtain p where
    p: "p \<in> set files" "snd (processTool env p) = Some (t, k)" by blast
  from assms(1) p(1) have "descriptor_name_ok env p"
    by (simp add: names_are_strings_def list_all_iff)
  from this p(2) show ?thesis by (rule processTool_string_name)
qed

section \<open>The dependency filter\<close>

lemma filter_deps_Inr:
  "filter_deps env toolDir mainFileName entries = Inr deps \<Longrightarrow>
   deps = filter (\<lambda>e. e \<notin> {''metadata.json'', mainFileName}
                      \<and> (case resolve env (path_join toolDir e) of
                            None \<Rightarrow> False
                          | Some n \<Rightarrow> isFile n)) entries"
proof (induction entries arbitrary: deps)
  case Nil
  then show ?case by simp
next
  case (Cons e entries)
  show ?case
  proof (cases "e \<in> {''metadata.json'', mainFileName}")
    case True
    then show ?thesis using Cons by auto
  next
    case False
    with Cons.prems obtain st ds where
      a: "statSync env (path_join toolDir e) = Inr st"
         "filter_deps env toolDir mainFileName entries = Inr ds"
         "deps = (if isFile st then e # ds else ds)"
      by (auto split: sum.splits)
    have "resolve env (path_join toolDir e) = Some st"
      using a(1) by (auto simp: statSync_def split: option.splits)
    then show ?thesis using False a Cons.IH[OF a(2)] by auto
  qed
qed

lemma findDependencies_Inr:
  assumes "snd (findDependencies env p c) = Inr deps"
  shows "\<exists>entries. readdirSync env (path_dirname p) = Inr entries
           \<and> deps = filter (\<lambda>e. e \<notin> {''metadata.json'', snd (getMainFileName c)}
                      \<and> (case resolve env (path_join (path_dirname p) e) of
                            None \<Rightarrow> False
                          | Some n \<Rightarrow> isFile n)) entries"
proof -
  from assms obtain entries where
    a: "readdirSync env (path_dirname p) = Inr entries"
       "filter_deps env (path_dirname p) (snd (getMainFileName c)) entries = Inr deps"
    by (auto simp: findDependencies_def Let_def split: sum.splits prod.splits)
  from filter_deps_Inr[OF a(2)] a(1) show ?thesis by blast
qed

lemma file_names_by_lookup:
  assumes "distinct (map fst es)"
  shows "filter (\<lambda>n. P n \<and> (case map_of es n of None \<Rightarrow> False | Some c \<Rightarrow> isFile c)) (map fst es)
         = filter P (file_names es)"
proof -
  have "filter (\<lambda>kv. P (fst kv) \<and> (case map_of es (fst kv) of None \<Rightarrow> False | Some c \<Rightarrow> isFile c)) es
        = filter (\<lambda>kv. P (fst kv) \<and> isFile (snd kv)) es"
    using assms by (intro filter_cong) auto
  then have "map fst (filter (\<lambda>kv. P (fst kv) \<and> (case map_of es (fst kv) of None \<Rightarrow> False | Some c \<Rightarrow> isFile c)) es)
        = map fst (filter (\<lambda>kv. P (fst kv)) (filter (\<lambda>kv. isFile (snd kv)) es))"
    by (simp add: conj_commute)
  then show ?thesis by (simp add: file_names_def filter_map comp_def)
qed

section \<open>Null results and the timestamp lookup\<close>

lemma processTool_None_diag:
  assumes "snd (processTool env p) = None"
  shows "(\<exists>e. ErrorFailedToProcess p e \<in> set (fst (processTool env p)))
       \<or> (\<exists>m. ErrorSkipping (extractToolName p) m \<in> set (fst (processTool env p)))"
proof (cases "processTool_try env p")
  case (Pair out r)
  show ?thesis
  proof (cases r)
    case (Inl e)
    then have "ErrorFailedToProcess p e \<in> set (fst (processTool env p))"
      using Pair by (simp add: processTool_def)
    then show ?thesis by blast
  next
    case (Inr v)
    then have v: "v = None" using assms Pair by (simp add: processTool_def)
    from Pair Inr v obtain metadata c where
      a: "processTool_checked env p metadata c = (out, Inr None)"
      by (auto simp: processTool_try_def split: sum.splits option.splits)
    then have "\<exists>m. ErrorSkipping (extractToolName p) m \<in> set out"
      by (auto simp: processTool_checked_def Let_def split: prod.splits if_splits sum.splits)
    then show ?thesis using Pair Inr by (simp add: processTool_def)
  qed
qed

lemma processTool_parse_error:
  "readFileSync env p = Inr content \<Longrightarrow> JSON_parse env content = None \<Longrightarrow>
   processTool env p = ([ErrorFailedToProcess p SyntaxError], None)"
  by (simp add: processTool_def processTool_try_def)

lemma processTool_bad_path:
  "extractSoftwareType p = Inl e \<Longrightarrow> snd (processTool env p) = None"
  by (auto simp: processTool_def processTool_try_def split: sum.splits option.splits)

lemma processTool_checked_missing_main:
  assumes "\<not> existsSync env (path_join (path_dirname p) (snd (getMainFileName c)))"
    and "processTool_checked env p metadata c = (out, r)"
  shows "r = Inr None"
  using assms
  by (auto simp: processTool_checked_def verifyMainToolFile_def Let_def split: prod.splits)

lemma processTool_missing_main:
  assumes "extractSoftwareType p = Inr c"
    and "\<not> existsSync env (path_join (path_dirname p) (snd (getMainFileName c)))"
  shows "snd (processTool env p) = None"
  using assms(1) processTool_checked_missing_main[OF assms(2)]
  by (auto simp: processTool_def processTool_try_def split: sum.splits option.splits prod.splits)

lemma resolve_git: "resolve (env\<lparr>git_log := g\<rparr>) p = resolve env p"
  by (simp add: resolve_def)

lemma filter_deps_git:
  "filter_deps (env\<lparr>git_log := g\<rparr>) d m entries = filter_deps env d m entries"
  by (induction entries) (auto simp: statSync_def resolve_git split: sum.splits option.splits)

lemma findDependencies_git:
  "findDependencies (env\<lparr>git_log := g\<rparr>) p c = findDependencies env p c"
  by (simp add: findDependencies_def readdirSync_def resolve_git filter_deps_git Let_def
           split: sum.splits option.splits node.splits prod.splits)

lemma verifyMainToolFile_git:
  "verifyMainToolFile (env\<lparr>git_log := g\<rparr>) p c = verifyMainToolFile env p c"
  by (simp add: verifyMainToolFile_def existsSync_def resolve_git)

lemma existsSync_git: "existsSync (env\<lparr>git_log := g\<rparr>) p = existsSync env p"
  by (simp add: existsSync_def resolve_git)

lemma buildTool_date:
  "buildTool metadata n deps d = Inr t \<Longrightarrow>
   buildTool metadata n deps d' = Inr (t\<lparr>updated_at := d'\<rparr>)"
  by (auto simp: buildTool_def split: sum.splits)

lemma processTool_log_date:
  "processTool_log metadata (t\<lparr>updated_at := d\<rparr>) c = processTool_log metadata t c"
  by (simp add: processTool_log_def split: sum.splits)

lemma processTool_checked_one_way:
  assumes "processTool_checked env p metadata c = (out, Inr (Some tc))"
  shows "\<exists>out' tc'. processTool_checked (env\<lparr>git_log := g\<rparr>) p metadata c = (out', Inr (Some tc'))"
proof -
  obtain t c' where tc: "tc = (t, c')" by (cases tc)
  from processTool_checked_Some[OF assms[unfolded tc]] obtain deps line where
    a: "existsSync env (path_join (path_dirname p) (snd (getMainFileName c)))"
       "snd (findDependencies env p c) = Inr deps"
       "buildTool metadata (extractToolName p) deps
          (snd (getLastCommitDate env (path_dirname p))) = Inr t"
       "processTool_log metadata t c = Inr line"
    by blast
  let ?env = "env\<lparr>git_log := g\<rparr>"
  let ?d = "snd (getLastCommitDate ?env (path_dirname p))"
  have b1: "existsSync ?env (path_join (path_dirname p) (snd (getMainFileName c)))"
    using a(1) by (simp add: existsSync_git)
  have b2: "snd (findDependencies ?env p c) = Inr deps"
    using a(2) by (simp add: findDependencies_git)
  have b3: "buildTool metadata (extractToolName p) deps ?d = Inr (t\<lparr>updated_at := ?d\<rparr>)"
    using a(3) by (rule buildTool_date)
  have b4: "processTool_log metadata (t\<lparr>updated_at := ?d\<rparr>) c = Inr line"
    using a(4) by (simp add: processTool_log_date)
  from processTool_checked_built[OF b1 b2 b3 b4] show ?thesis by blast
qed

lemma processTool_one_way:
  assumes "snd (processTool env p) \<noteq> None"
  shows "snd (processTool (env\<lparr>git_log := g\<rparr>) p) \<noteq> None"
proof -
  from assms obtain out tc where "processTool_try env p = (out, Inr (Some tc))"
    by (auto simp: processTool_def split: prod.splits sum.splits)
  then obtain content metadata c where
    a: "readFileSync env p = Inr content" "JSON_parse env content = Some metadata"
       "extractSoftwareType p = Inr c"
       "processTool_checked env p metadata c = (out, Inr (Some tc))"
    by (auto simp: processTool_try_def split: sum.splits option.splits)
  from processTool_checked_one_way[OF a(4), of g] obtain out' tc' where
    "processTool_checked (env\<lparr>git_log := g\<rparr>) p metadata c = (out', Inr (Some tc'))" by blast
  then show ?thesis using a(1,2,3)
    by (simp add: processTool_def processTool_try_def readFileSync_def resolve_git)
qed

lemma processTool_git_independent:
  "(snd (processTool (env\<lparr>git_log := g\<rparr>) p) = None) = (snd (processTool env p) = None)"
proof -
  have e: "env\<lparr>git_log := g\<rparr>\<lparr>git_log := git_log env\<rparr> = env" by simp
  have "snd (processTool (env\<lparr>git_log := g\<rparr>) p) \<noteq> None \<Longrightarrow> snd (processTool env p) \<noteq> None"
    using processTool_one_way[of "env\<lparr>git_log := g\<rparr>" p "git_log env"] unfolding e .
  then show ?thesis
    using processTool_one_way[of env p g] by blast
qed

lemma getLastCommitDate_failed:
  "git_log env (path_relative (cwd env) (cwd env) d) = None \<Longrightarrow>
   getLastCommitDate env d = ([WarnGitFailed d], clock_now env)"
  by (simp add: getLastCommitDate_def)

lemma processTool_git_failed:
  assumes "git_log env (path_relative (cwd env) (cwd env) (path_dirname p)) = None"
    and "processTool env p = (out, Some (t, c))"
  shows "updated_at t = clock_now env \<and> WarnGitFailed (path_dirname p) \<in> set out"
proof -
  from assms(2) have "processTool_try env p = (out, Inr (Some (t, c)))"
    by (auto simp: processTool_def split: prod.splits sum.splits)
  then obtain metadata c0 where
    "processTool_checked env p metadata c0 = (out, Inr (Some (t, c)))"
    by (auto simp: processTool_try_def split: sum.splits option.splits)
  then obtain deps w4 d w line where
    a: "getLastCommitDate env (path_dirname p) = (w4, d)"
       "buildTool metadata (extractToolName p) deps d = Inr t"
       "out = w @ w4 @ [line]"
    by (auto simp: processTool_checked_def Let_def split: prod.splits if_splits sum.splits)
  from a(1) assms(1) have "w4 = [WarnGitFailed (path_dirname p)]" "d = clock_now env"
    by (simp_all add: getLastCommitDate_failed)
  then show ?thesis using a buildTool_Inr[OF a(2)] by auto
qed

lemma processTool_Some_iff:
  "(snd (processTool env p) \<noteq> None) =
   (\<exists>content metadata c deps t line.
       readFileSync env p = Inr content \<and> JSON_parse env content = Some metadata
     \<and> extractSoftwareType p = Inr c
     \<and> existsSync env (path_join (path_dirname p) (snd (getMainFileName c)))
     \<and> snd (findDependencies env p c) = Inr deps
     \<and> buildTool metadata (extractToolName p) deps
          (snd (getLastCommitDate env (path_dirname p))) = Inr t
     \<and> processTool_log metadata t c = Inr line)"
proof
  assume "snd (processTool env p) \<noteq> None"
  then obtain out t c where "processTool env p = (out, Some (t, c))"
    by (cases "processTool env p") auto
  from processTool_Some[OF this] show "\<exists>content metadata c deps t line.
       readFileSync env p = Inr content \<and> JSON_parse env content = Some metadata
     \<and> extractSoftwareType p = Inr c
     \<and> existsSync env (path_join (path_dirname p) (snd (getMainFileName c)))
     \<and> snd (findDependencies env p c) = Inr deps
     \<and> buildTool metadata (extractToolName p) deps
          (snd (getLastCommitDate env (path_dirname p))) = Inr t
     \<and> processTool_log metadata t c = Inr line" by blast
next
  assume "\<exists>content metadata c deps t line.
       readFileSync env p = Inr content \<and> JSON_parse env content = Some metadata
     \<and> extractSoftwareType p = Inr c
     \<and> existsSync env (path_join (path_dirname p) (snd (getMainFileName c)))
     \<and> snd (findDependencies env p c) = Inr deps
     \<and> buildTool metadata (extractToolName p) deps
          (snd (getLastCommitDate env (path_dirname p))) = Inr t
     \<and> processTool_log metadata t c = Inr line"
  then obtain content metadata c deps t line where
    a: "readFileSync env p = Inr content" "JSON_parse env content = Some metadata"
       "extractSoftwareType p = Inr c"
       "existsSync env (path_join (path_dirname p) (snd (getMainFileName c)))"
       "snd (findDependencies env p c) = Inr deps"
       "buildTool metadata (extractToolName p) deps
          (snd (getLastCommitDate env (path_dirname p))) = Inr t"
       "processTool_log metadata t c = Inr line" by blast
  from processTool_built[OF a] show "snd (processTool env p) \<noteq> None" by auto
qed

lemma processAll_skips:
  "snd (processAll env files obj)
     = snd (processAll env (filter (\<lambda>p. snd (processTool env p) \<noteq> None) files) obj)"
proof (induction files arbitrary: obj)
  case Nil
  then show ?case by simp
next
  case (Cons p files)
  let ?keep = "filter (\<lambda>p. snd (processTool env p) \<noteq> None)"
  obtain out r where pt: "processTool env p = (out, r)" by (cases "processTool env p")
  show ?case
  proof (cases r)
    case None
    have "snd (processAll env (p # files) obj) = snd (processAll env files obj)"
      using pt None by (simp split: prod.splits)
    moreover have "?keep (p # files) = ?keep files" using pt None by simp
    ultimately show ?thesis using Cons.IH[of obj] by simp
  next
    case (Some tc)
    obtain t c where tc: "tc = (t, c)" by (cases tc)
    have k: "?keep (p # files) = p # ?keep files" using pt Some by simp
    obtain out2 r2 where at: "addTool obj t c = (out2, r2)" by (cases "addTool obj t c")
    show ?thesis
    proof (cases r2)
      case (Inl e)
      then show ?thesis unfolding k using pt Some tc at by simp
    next
      case (Inr obj')
      have "snd (processAll env (p # files) obj) = snd (processAll env files obj')"
        using pt Some tc at Inr by (simp split: prod.splits)
      moreover have "snd (processAll env (p # ?keep files) obj)
                       = snd (processAll env (?keep files) obj')"
        using pt Some tc at Inr by (simp split: prod.splits)
      ultimately show ?thesis unfolding k using Cons.IH[of obj'] by simp
    qed
  qed
qed

lemma processTool_unreadable:
  "readFileSync env p = Inl e \<Longrightarrow> processTool env p = ([ErrorFailedToProcess p e], None)"
  by (simp add: processTool_def processTool_try_def)

lemma processTool_bad_path_line:
  "readFileSync env p = Inr content \<Longrightarrow> JSON_parse env content = Some metadata \<Longrightarrow>
   extractSoftwareType p = Inl e \<Longrightarrow>
   processTool env p = ([ErrorFailedToProcess p e], None)"
  by (simp add: processTool_def processTool_try_def)

lemma extractSoftwareType_error:
  "extractSoftwareType p = Inl e \<Longrightarrow> e = InvalidToolPath p"
  by (simp add: extractSoftwareType_def Let_def split: if_splits)

lemma processTool_missing_main_line:
  assumes "readFileSync env p = Inr content" "JSON_parse env content = Some metadata"
    and "extractSoftwareType p = Inr c"
    and "\<not> existsSync env (path_join (path_dirname p) (snd (getMainFileName c)))"
  shows "processTool env p
           = (fst (getMainFileName c) @ fst (getMainFileName c)
                @ [ErrorSkipping (extractToolName p) (snd (getMainFileName c))], None)"
proof -
  obtain w m where g: "getMainFileName c = (w, m)" by (cases "getMainFileName c")
  then have "processTool_checked env p metadata c = (w @ w @ [ErrorSkipping (extractToolName p) m], Inr None)"
    using assms(4) by (simp add: processTool_checked_def verifyMainToolFile_def)
  then show ?thesis using assms(1-3) g by (simp add: processTool_def processTool_try_def)
qed

lemma processTool_unprintable_name:
  assumes "readFileSync env p = Inr content" "JSON_parse env content = Some metadata"
    and "getProp metadata ''name'' = Inr (Some v)" "truthy v" "toString_throws v"
  shows "snd (processTool env p) = None"
proof (rule ccontr)
  assume "snd (processTool env p) \<noteq> None"
  then obtain out t c where "processTool env p = (out, Some (t, c))"
    by (cases "processTool env p") auto
  from processTool_Some[OF this] assms(1,2) obtain deps line where
    a: "buildTool metadata (extractToolName p) deps
          (snd (getLastCommitDate env (path_dirname p))) = Inr t"
       "processTool_log metadata t c = Inr line" by auto
  from buildTool_Inr[OF a(1)] assms(3,4) have "name t = v" by auto
  with processTool_log_Inr[OF a(2)] assms(5) show False by simp
qed

lemma processTool_unprintable_id:
  assumes "readFileSync env p = Inr content" "JSON_parse env content = Some metadata"
    and "getProp metadata ''id'' = Inr (Some v)" "truthy v" "toString_throws v"
  shows "snd (processTool env p) = None"
proof (rule ccontr)
  assume "snd (processTool env p) \<noteq> None"
  then obtain out t c where "processTool env p = (out, Some (t, c))"
    by (cases "processTool env p") auto
  from processTool_Some[OF this] assms(1,2) obtain line where
    "processTool_log metadata t c = Inr line" by auto
  then show False using assms(3,4,5)
    by (simp add: processTool_log_def split: if_splits)
qed

lemma processTool_null_descriptor:
  assumes "readFileSync env p = Inr content" "JSON_parse env content = Some JNull"
  shows "snd (processTool env p) = None"
proof (rule ccontr)
  assume "snd (processTool env p) \<noteq> None"
  then obtain out t c where "processTool env p = (out, Some (t, c))"
    by (cases "processTool env p") auto
  from processTool_Some[OF this] assms obtain deps d where
    "buildTool JNull (extractToolName p) deps d = Inr t" by auto
  then show False by (simp add: buildTool_def)
qed

section \<open>The category as a function of the segments\<close>

lemma extractSoftwareType_Inr_iff:
  "(extractSoftwareType p = Inr c) =
   (\<exists>pre post. split_on slash (replace_backslashes p) = pre @ ''tools'' # c # post
                \<and> ''tools'' \<notin> set pre)"
proof
  let ?parts = "split_on slash (replace_backslashes p)"
  assume a: "extractSoftwareType p = Inr c"
  then have ne: "indexOf ?parts ''tools'' \<noteq> -1"
    and lt: "indexOf ?parts ''tools'' + 1 < int (length ?parts)"
    and c: "c = ?parts ! nat (indexOf ?parts ''tools'' + 1)"
    by (auto simp: extractSoftwareType_def Let_def split: if_splits)
  from ne have "''tools'' \<in> set ?parts" by (simp add: indexOf_absent)
  then obtain pre rest where s: "?parts = pre @ ''tools'' # rest" "''tools'' \<notin> set pre"
    by (meson split_list_first)
  then have i: "indexOf ?parts ''tools'' = int (length pre)" by (simp add: indexOf_first)
  with lt s(1) have "rest \<noteq> []" by auto
  then obtain c' post where r: "rest = c' # post" by (cases rest) auto
  have "c = c'" using c i s(1) r by (simp add: nat_add_distrib nth_append)
  then show "\<exists>pre post. ?parts = pre @ ''tools'' # c # post \<and> ''tools'' \<notin> set pre"
    using s r by blast
next
  let ?parts = "split_on slash (replace_backslashes p)"
  assume "\<exists>pre post. ?parts = pre @ ''tools'' # c # post \<and> ''tools'' \<notin> set pre"
  then obtain pre post where s: "?parts = pre @ ''tools'' # c # post" "''tools'' \<notin> set pre"
    by blast
  have i: "indexOf (pre @ ''tools'' # c # post) ''tools'' = int (length pre)"
    using s(2) by (rule indexOf_first)
  have "(pre @ ''tools'' # c # post) ! Suc (length pre) = c" by (simp add: nth_append)
  then show "extractSoftwareType p = Inr c"
    unfolding extractSoftwareType_def Let_def s(1) i
    by (simp add: nat_add_distrib)
qed

lemma extractSoftwareType_Inl_iff:
  "(\<exists>e. extractSoftwareType p = Inl e) =
   (''tools'' \<notin> set (split_on slash (replace_backslashes p))
    \<or> (\<exists>pre. split_on slash (replace_backslashes p) = pre @ [''tools''] \<and> ''tools'' \<notin> set pre))"
proof -
  let ?parts = "split_on slash (replace_backslashes p)"
  show ?thesis
  proof (cases "''tools'' \<in> set ?parts")
    case False
    then have "indexOf ?parts ''tools'' = -1" by (simp add: indexOf_absent)
    then show ?thesis using False by (simp add: extractSoftwareType_def)
  next
    case True
    then obtain pre rest where s: "?parts = pre @ ''tools'' # rest" "''tools'' \<notin> set pre"
      by (meson split_list_first)
    then have i: "indexOf ?parts ''tools'' = int (length pre)" by (simp add: indexOf_first)
    have u: "rest = []"
      if h: "?parts = pre' @ [''tools'']" "''tools'' \<notin> set pre'" for pre'
    proof -
      have "indexOf ?parts ''tools'' = int (length pre')"
        using h(2) unfolding h(1) by (rule indexOf_first)
      then have "length pre = length pre'" using i by simp
      moreover have "pre @ ''tools'' # rest = pre' @ [''tools'']" using s(1) h(1) by simp
      ultimately show ?thesis by simp
    qed
    show ?thesis
    proof (cases rest)
      case Nil
      have "indexOf (pre @ [''tools'']) ''tools'' = int (length pre)"
        using s(2) by (rule indexOf_first)
      then have "\<exists>e. extractSoftwareType p = Inl e"
        using s(1) Nil by (simp add: extractSoftwareType_def Let_def)
      then show ?thesis using s Nil by auto
    next
      case (Cons c post)
      then have "extractSoftwareType p = Inr c"
        using s by (auto simp: extractSoftwareType_Inr_iff)
      then show ?thesis using True u Cons by auto
    qed
  qed
qed

lemma main_file_names:
  "snd (getMainFileName c) \<in> {''tool.py'', ''tool.rb'', ''tool.undefined''}"
  by (simp add: getMainFileName_def SOFTWARE_CONFIG_def)

lemma valid_main_file: "valid_name (snd (getMainFileName c))"
proof -
  have "valid_name ''tool.py''" "valid_name ''tool.rb''" "valid_name ''tool.undefined''"
    by (simp_all add: valid_name_def slash_def)
  then show ?thesis using main_file_names[of c] by auto
qed

lemma descriptor_paths_File:
  "(m, File content) \<in> set es \<Longrightarrow> m = ''metadata.json'' \<Longrightarrow> [m] \<in> set (descriptor_paths es)"
  by (induction es rule: descriptor_paths.induct) auto

lemma descriptor_paths_Dir:
  "(r, Dir sub) \<in> set es \<Longrightarrow> q \<in> set (descriptor_paths sub) \<Longrightarrow> r # q \<in> set (descriptor_paths es)"
  by (induction es rule: descriptor_paths.induct) auto

lemma descend_descriptor:
  "descend (Dir es) (rel @ [''metadata.json'']) = Some (File content) \<Longrightarrow>
   rel @ [''metadata.json''] \<in> set (descriptor_paths es)"
proof (induction rel arbitrary: es)
  case Nil
  then have "(''metadata.json'', File content) \<in> set es"
    by (auto split: option.splits dest: map_of_SomeD)
  then show ?case by (simp add: descriptor_paths_File)
next
  case (Cons r rel)
  then obtain child where c: "map_of es r = Some child"
      "descend child (rel @ [''metadata.json'']) = Some (File content)"
    by (auto split: option.splits)
  obtain x xs where "rel @ [''metadata.json''] = x # xs" by (cases rel) auto
  with c(2) obtain sub where sub: "child = Dir sub" by (cases child) auto
  from Cons.IH[of sub] c sub have "rel @ [''metadata.json''] \<in> set (descriptor_paths sub)" by simp
  moreover have "(r, Dir sub) \<in> set es" using c(1) sub by (auto dest: map_of_SomeD)
  ultimately show ?case using descriptor_paths_Dir by fastforce
qed

lemma findMetadataFiles_abs:
  assumes "list_all valid_name segs" "segs \<noteq> []"
    and "resolve env (abs_path segs) = Some (Dir es)" "wf_entries es"
  shows "findMetadataFiles env (abs_path segs)
           = Inr (map (\<lambda>rel. abs_path (segs @ rel)) (descriptor_paths es))"
  using assms by (simp add: findMetadataFiles_def traverse_abs)

section \<open>The keys of the written catalog\<close>

lemma valid_tools: "valid_name ''tools''"
  by (simp add: valid_name_def slash_def)

lemma valid_metadata: "valid_name ''metadata.json''"
  by (simp add: valid_name_def slash_def)

lemma toolsDir_abs:
  "cwd env = abs_path segs \<Longrightarrow> list_all valid_name segs \<Longrightarrow>
   path_join (cwd env) ''tools'' = abs_path (segs @ [''tools''])"
  by (simp add: path_join_abs valid_tools)

lemma distinct_dir_names: "distinct (map fst es) \<Longrightarrow> distinct (dir_names es)"
  by (simp add: dir_names_def distinct_map_filter)

lemma set_key_order: "set (key_order ks) = set ks"
  by (auto simp: key_order_def)

lemma key_order_plain: "list_all (\<lambda>k. \<not> isArrayIndex k) ks \<Longrightarrow> key_order ks = ks"
proof -
  assume a: "list_all (\<lambda>k. \<not> isArrayIndex k) ks"
  then have "filter isArrayIndex ks = []" by (auto simp: list_all_iff filter_empty_conv)
  moreover have "filter (\<lambda>k. \<not> isArrayIndex k) ks = ks" using a by (auto simp: list_all_iff)
  ultimately show ?thesis by (simp add: key_order_def)
qed

lemma main_keys:
  assumes "written (main env) = Some doc"
    and "discoverSoftwareTypes env (path_join (cwd env) ''tools'') = Inr types"
    and "distinct types"
  shows "map fst (tools doc) = key_order types"
proof -
  from main_written[OF assms(1)] assms(2) obtain files out obj where
    a: "processAll env files (fromEntries (map (\<lambda>ty. (ty, [])) types)) = (out, Inr obj)"
       "sortAll env (obj_entries obj) = Inr (tools doc)"
    by auto
  have "map fst obj = map fst (fromEntries (map (\<lambda>ty. (ty, [] :: tool list)) types))"
    using processAll_Inr[OF a(1)] by (simp add: comp_def)
  also have "\<dots> = types" using assms(3) by (simp add: fromEntries_distinct comp_def)
  finally have "map fst obj = types" .
  moreover have "map fst (tools doc) = map fst (obj_entries obj)"
    using sortAll_Inr[OF a(2)] by simp
  ultimately show ?thesis by (simp add: map_fst_obj_entries key_order_def)
qed






section \<open>Descriptors at the expected depth and directly inside a category\<close>

lemma layout_category:
  assumes "list_all valid_name (segs @ [cat, tool])" "''tools'' \<notin> set segs"
    and "list_all (\<lambda>s. backslash \<notin> set s) (segs @ [cat])"
  shows "extractSoftwareType (abs_path (segs @ [''tools'', cat, tool, ''metadata.json''])) = Inr cat
       \<and> path_basename (path_dirname (path_dirname
            (abs_path (segs @ [''tools'', cat, tool, ''metadata.json''])))) = cat
       \<and> extractToolName (abs_path (segs @ [''tools'', cat, tool, ''metadata.json''])) = tool"
proof -
  have vs: "list_all valid_name segs" "valid_name cat" "valid_name tool" using assms(1) by auto
  have e: "extractSoftwareType (abs_path (segs @ ''tools'' # cat # [tool, ''metadata.json''])) = Inr cat"
    using assms vs by (intro extractSoftwareType_abs) (auto simp: list_all_iff valid_name_def)
  have d1: "path_dirname (abs_path ((segs @ [''tools'', cat, tool]) @ [''metadata.json'']))
              = abs_path (segs @ [''tools'', cat, tool])"
    using vs valid_tools valid_metadata by (intro dirname_abs) auto
  have d2: "path_dirname (abs_path ((segs @ [''tools'', cat]) @ [tool]))
              = abs_path (segs @ [''tools'', cat])"
    using vs valid_tools by (intro dirname_abs) auto
  have b1: "path_basename (abs_path ((segs @ [''tools'']) @ [cat])) = cat"
    using vs(2) by (rule basename_abs)
  have b2: "path_basename (abs_path ((segs @ [''tools'', cat]) @ [tool])) = tool"
    using vs(3) by (rule basename_abs)
  show ?thesis using e d1 d2 b1 b2 by (simp add: extractToolName_def)
qed

lemma category_descriptor:
  assumes "list_all valid_name segs" "''tools'' \<notin> set segs"
    and "list_all (\<lambda>s. backslash \<notin> set s) segs"
    and "valid_name cat" "backslash \<notin> set cat"
  shows "extractSoftwareType (abs_path (segs @ [''tools'', cat, ''metadata.json''])) = Inr cat
       \<and> extractToolName (abs_path (segs @ [''tools'', cat, ''metadata.json''])) = cat
       \<and> path_dirname (abs_path (segs @ [''tools'', cat, ''metadata.json'']))
            = abs_path (segs @ [''tools'', cat])"
proof -
  have e: "extractSoftwareType (abs_path (segs @ ''tools'' # cat # [''metadata.json''])) = Inr cat"
    using assms by (intro extractSoftwareType_abs) (auto simp: list_all_iff valid_name_def)
  have d1: "path_dirname (abs_path ((segs @ [''tools'', cat]) @ [''metadata.json'']))
              = abs_path (segs @ [''tools'', cat])"
    using assms valid_tools valid_metadata by (intro dirname_abs) auto
  have b1: "path_basename (abs_path ((segs @ [''tools'']) @ [cat])) = cat"
    using assms(4) by (rule basename_abs)
  show ?thesis using e d1 b1 by (simp add: extractToolName_def)
qed

section \<open>The claims\<close>

subsection \<open>C1: the main file\<close>

text \<open>
  C1. A tool appears in the catalog only if its main file exists as a regular file
  directly inside the tool's directory; a tool without it is left out and the run
  continues. \<^verbatim>\<open>verifyMainToolFile\<close> asks \<^verbatim>\<open>existsSync\<close>, which is also true of a
  directory, while \<^verbatim>\<open>findDependencies\<close> and \<^verbatim>\<open>findMetadataFiles\<close> ask \<^verbatim>\<open>statSync\<close>
  for the kind of an entry. In the run below \<^verbatim>\<open>tools/blender/a/tool.py\<close> is a
  directory: no main file exists as a regular file, and yet the tool is in the
  catalog.
\<close>

theorem C1_main_file_is_directory:
  \<open>resolve (repo dir_main_tools) ''/repo/tools/blender/a/tool.py'' = Some (Dir [])
   \<and> verifyMainToolFile (repo dir_main_tools) ''/repo/tools/blender/a/metadata.json'' ''blender''
       = ([], True)
   \<and> written (main (repo dir_main_tools)) =
       Some \<lparr> version = ''1.0.0'', generated_at = ''2024-06-01T00:00:00.000Z'',
              tools = [(''blender'',
                        [\<lparr> name = JStr ''A'', description = JStr [], folder = ''a'',
                            updated_at = ''2024-05-01T10:00:00+02:00'',
                            dependencies = None, tool_id = None \<rparr>])] \<rparr>\<close>
  by code_simp

subsection \<open>C2: the category keys\<close>

text \<open>
  C2, as stated: the keys of \<^verbatim>\<open>tools\<close> are the names of the immediate
  subdirectories of the tools root, in sorted ascending order for every set of names.
  With the categories \<^verbatim>\<open>10\<close> and \<^verbatim>\<open>9\<close> the sorted array is \<^verbatim>\<open>["10", "9"]\<close>, and the
  object built from it lists its keys as \<^verbatim>\<open>9\<close>, \<^verbatim>\<open>10\<close>, which is not ascending in
  the order of the sort.
\<close>

theorem C2_numeric_names_counterexample:
  "discoverSoftwareTypes (repo numeric_tools) ''/repo/tools'' = Inr [''10'', ''9'']
   \<and> map fst (tools (the (written (main (repo numeric_tools))))) = [''9'', ''10'']
   \<and> \<not> sorted (map fst (tools (the (written (main (repo numeric_tools))))))"
  by code_simp

text \<open>
  C2, amended: when a catalog is written, its keys are exactly the names of the
  immediate subdirectories of the tools root, and a category none of whose tools
  was processed successfully has the empty list. The keys stand in the order in which
  an object enumerates them: the names that are array indices first, in ascending
  numeric order, then the others in sorted ascending order; so the order is the sorted
  one when no category name is an array index.
\<close>

theorem C2_category_keys:
  assumes "cwd env = abs_path segs" and "list_all valid_name segs"
    and "resolve env (path_join (cwd env) ''tools'') = Some (Dir es)"
    and "wf_entries es"
    and "written (main env) = Some doc"
  shows "set (map fst (tools doc)) = set (dir_names es)
       \<and> map fst (tools doc) = key_order (sort (dir_names es))
       \<and> (list_all (\<lambda>k. \<not> isArrayIndex k) (dir_names es)
            \<longrightarrow> map fst (tools doc) = sort (dir_names es))
       \<and> (findMetadataFiles env (path_join (cwd env) ''tools'') = Inr files
            \<and> (k, ts) \<in> set (tools doc) \<and> tools_of k (results env files) = []
            \<longrightarrow> ts = [])"
proof -
  have td: "path_join (cwd env) ''tools'' = abs_path (segs @ [''tools''])"
    using assms(1,2) by (rule toolsDir_abs)
  have v: "list_all valid_name (segs @ [''tools''])" using assms(2) valid_tools by simp
  have names: "list_all valid_name (map fst es)" "distinct (map fst es)"
    using wf_entries_names[OF assms(4)] by auto
  have types: "discoverSoftwareTypes env (path_join (cwd env) ''tools'') = Inr (sort (dir_names es))"
    unfolding td using v assms(3)[unfolded td] names by (rule discoverSoftwareTypes_abs)
  have d: "distinct (sort (dir_names es))" using names(2) by (simp add: distinct_dir_names)
  have keys: "map fst (tools doc) = key_order (sort (dir_names es))"
    using assms(5) types d by (rule main_keys)
  have plain: "map fst (tools doc) = sort (dir_names es)"
    if "list_all (\<lambda>k. \<not> isArrayIndex k) (dir_names es)"
  proof -
    have "list_all (\<lambda>k. \<not> isArrayIndex k) (sort (dir_names es))"
      using that by (simp add: list_all_iff)
    then show ?thesis using keys by (simp add: key_order_plain)
  qed
  have empty: "ts = []"
    if "findMetadataFiles env (path_join (cwd env) ''tools'') = Inr files"
       "(k, ts) \<in> set (tools doc)" "tools_of k (results env files) = []"
  proof -
    from main_lists[OF assms(5) that(2)] that(1)
    have "sortTools env (tools_of k (results env files)) = Inr ts" by auto
    then show ?thesis using that(3) by (simp add: sortTools_def)
  qed
  show ?thesis using keys plain empty by (auto simp: set_key_order)
qed

theorem C2_category_keys_witness:
  "cwd (repo basic_tools) = abs_path [''repo'']
   \<and> list_all valid_name [''repo'']
   \<and> resolve (repo basic_tools) (path_join (cwd (repo basic_tools)) ''tools'')
       = Some (Dir basic_tools)
   \<and> wf_entries basic_tools
   \<and> written (main (repo basic_tools)) = Some (the (written (main (repo basic_tools))))
   \<and> list_all (\<lambda>k. \<not> isArrayIndex k) (dir_names basic_tools)
   \<and> findMetadataFiles (repo basic_tools) (path_join (cwd (repo basic_tools)) ''tools'')
       = Inr [''/repo/tools/blender/a/metadata.json'', ''/repo/tools/blender/b/metadata.json'',
              ''/repo/tools/blender/c/metadata.json'']
   \<and> (''sketchup'', []) \<in> set (tools (the (written (main (repo basic_tools)))))
   \<and> set (map fst (tools (the (written (main (repo basic_tools)))))) = set (dir_names basic_tools)
   \<and> map fst (tools (the (written (main (repo basic_tools))))) = sort (dir_names basic_tools)"
proof -
  have h1: "cwd (repo basic_tools) = abs_path [''repo'']" by code_simp
  have h2: "list_all valid_name [''repo'']" by code_simp
  have h3: "resolve (repo basic_tools) (path_join (cwd (repo basic_tools)) ''tools'')
              = Some (Dir basic_tools)" by code_simp
  have h4: "wf_entries basic_tools" by code_simp
  have h5: "written (main (repo basic_tools)) = Some (the (written (main (repo basic_tools))))"
    by code_simp
  have h6: "list_all (\<lambda>k. \<not> isArrayIndex k) (dir_names basic_tools)" by code_simp
  have h7: "findMetadataFiles (repo basic_tools) (path_join (cwd (repo basic_tools)) ''tools'')
       = Inr [''/repo/tools/blender/a/metadata.json'', ''/repo/tools/blender/b/metadata.json'',
              ''/repo/tools/blender/c/metadata.json'']" by code_simp
  have h8: "(''sketchup'', []) \<in> set (tools (the (written (main (repo basic_tools)))))"
    by code_simp
  from C2_category_keys[OF h1 h2 h3 h4 h5] h6
  have "set (map fst (tools (the (written (main (repo basic_tools)))))) = set (dir_names basic_tools)"
    and "map fst (tools (the (written (main (repo basic_tools))))) = sort (dir_names basic_tools)"
    by blast+
  with h1 h2 h3 h4 h5 h6 h7 h8 show ?thesis by blast
qed

subsection \<open>C3: the order within a category\<close>

text \<open>
  C3, as stated: within every category's list the records are strictly ordered by
  name. Two tools of one category with the same display name are both in the list,
  next to each other, and neither name is before the other.
\<close>

theorem C3_equal_names_counterexample:
  "map folder (the (map_of (tools (the (written (main (repo same_name_tools))))) ''blender''))
     = [''a'', ''b'']
   \<and> map name (the (map_of (tools (the (written (main (repo same_name_tools))))) ''blender''))
     = [JStr ''A'', JStr ''A'']
   \<and> \<not> sorted_wrt (tool_lt (repo same_name_tools))
         (the (map_of (tools (the (written (main (repo same_name_tools))))) ''blender''))"
  by code_simp

text \<open>
  C3, amended: with a consistent \<^verbatim>\<open>localeCompare\<close>, and when the name of every
  descriptor found below the tools root is a string (if the descriptor can be read and
  parsed and holds a truthy name), every category's list of the written catalog holds
  exactly the records processed for the category, each record's name compares less
  than or equal to the names of the records after it (records of equal names are
  adjacent), and sorting the list again gives the same list.
\<close>

theorem C3_sorted_idempotent:
  assumes "comparator_ok (localeCompare env)"
    and "findMetadataFiles env (path_join (cwd env) ''tools'') = Inr files"
    and "names_are_strings env files"
    and "written (main env) = Some doc"
    and "(k, ts) \<in> set (tools doc)"
  shows "sorted_wrt (tool_le env) ts \<and> sortTools env ts = Inr ts
       \<and> mset ts = mset (tools_of k (results env files))"
proof -
  from main_lists[OF assms(4,5)] assms(2) have
    s: "sortTools env (tools_of k (results env files)) = Inr ts" by auto
  have "\<forall>t \<in> set (tools_of k (results env files)). string_of (name t) \<noteq> None"
    using tools_of_string_names[OF assms(3)] by blast
  from sortTools_strings[OF assms(1) this s] show ?thesis by simp
qed

theorem C3_sorted_idempotent_witness:
  "comparator_ok (localeCompare (repo field_tools))
   \<and> findMetadataFiles (repo field_tools) (path_join (cwd (repo field_tools)) ''tools'')
       = Inr [''/repo/tools/sketchup/a/metadata.json'', ''/repo/tools/sketchup/b/metadata.json'',
              ''/repo/tools/sketchup/c/metadata.json'']
   \<and> names_are_strings (repo field_tools)
        [''/repo/tools/sketchup/a/metadata.json'', ''/repo/tools/sketchup/b/metadata.json'',
         ''/repo/tools/sketchup/c/metadata.json'']
   \<and> written (main (repo field_tools)) = Some (the (written (main (repo field_tools))))
   \<and> map name (the (map_of (tools (the (written (main (repo field_tools))))) ''sketchup''))
       = [JStr ''B'', JStr ''a'', JStr ''c'']
   \<and> map folder
        (tools_of ''sketchup''
           (results (repo field_tools)
              [''/repo/tools/sketchup/a/metadata.json'', ''/repo/tools/sketchup/b/metadata.json'',
               ''/repo/tools/sketchup/c/metadata.json'']))
       = [''a'', ''b'', ''c'']
   \<and> (''sketchup'', the (map_of (tools (the (written (main (repo field_tools))))) ''sketchup''))
       \<in> set (tools (the (written (main (repo field_tools)))))
   \<and> sorted_wrt (tool_le (repo field_tools))
       (the (map_of (tools (the (written (main (repo field_tools))))) ''sketchup''))
   \<and> sortTools (repo field_tools)
       (the (map_of (tools (the (written (main (repo field_tools))))) ''sketchup''))
       = Inr (the (map_of (tools (the (written (main (repo field_tools))))) ''sketchup''))
   \<and> mset (the (map_of (tools (the (written (main (repo field_tools))))) ''sketchup''))
       = mset (tools_of ''sketchup''
                 (results (repo field_tools)
                    [''/repo/tools/sketchup/a/metadata.json'',
                     ''/repo/tools/sketchup/b/metadata.json'',
                     ''/repo/tools/sketchup/c/metadata.json'']))"
proof -
  let ?files = "[''/repo/tools/sketchup/a/metadata.json'', ''/repo/tools/sketchup/b/metadata.json'',
                 ''/repo/tools/sketchup/c/metadata.json'']"
  have h1: "comparator_ok (localeCompare (repo field_tools))"
    by (auto simp: comparator_ok_def repo_def example_env_def example_compare_def)
  have h2: "findMetadataFiles (repo field_tools) (path_join (cwd (repo field_tools)) ''tools'')
              = Inr ?files" by code_simp
  have h3: "names_are_strings (repo field_tools) ?files" by code_simp
  have h4: "written (main (repo field_tools)) = Some (the (written (main (repo field_tools))))"
    by code_simp
  have h5: "(''sketchup'', the (map_of (tools (the (written (main (repo field_tools))))) ''sketchup''))
       \<in> set (tools (the (written (main (repo field_tools)))))"
    by code_simp
  have h6: "map name (the (map_of (tools (the (written (main (repo field_tools))))) ''sketchup''))
       = [JStr ''B'', JStr ''a'', JStr ''c'']"
    by code_simp
  have h7: "map folder (tools_of ''sketchup'' (results (repo field_tools) ?files))
       = [''a'', ''b'', ''c'']"
    by code_simp
  note r = C3_sorted_idempotent[OF h1 h2 h3 h4 h5]
  show ?thesis
    apply (intro conjI)
    apply (rule h1) apply (rule h2) apply (rule h3) apply (rule h4)
    apply (rule h6) apply (rule h7) apply (rule h5)
    apply (rule r[THEN conjunct1])
    apply (rule r[THEN conjunct2, THEN conjunct1])
    apply (rule r[THEN conjunct2, THEN conjunct2])
    done
qed

subsection \<open>C4: the dependencies\<close>

text \<open>
  C4. For every successfully processed tool, \<^verbatim>\<open>dependencies\<close> is present if and only
  if the tool directory has a regular file other than \<^verbatim>\<open>metadata.json\<close> and the main
  file's name; when present it lists exactly those file names, in the order of the
  directory listing. The first part states it with the paths the processor looks up;
  the second, for a descriptor path as the scanner builds it, with the entries of the
  tool directory.
\<close>

theorem C4_dependencies:
  assumes "snd (processTool env p) = Some (t, c)"
  shows "(\<exists>entries. readdirSync env (path_dirname p) = Inr entries
            \<and> dependencies t =
                (let deps = filter (\<lambda>e. e \<notin> {''metadata.json'', snd (getMainFileName c)}
                                      \<and> (case resolve env (path_join (path_dirname p) e) of
                                            None \<Rightarrow> False
                                          | Some n \<Rightarrow> isFile n)) entries
                 in if deps = [] then None else Some deps))
       \<and> (p = abs_path (segs @ [''metadata.json'']) \<and> list_all valid_name segs
              \<and> resolve env (abs_path segs) = Some (Dir es) \<and> wf_entries es
            \<longrightarrow> dependencies t =
                (let deps = filter (\<lambda>n. n \<notin> {''metadata.json'', snd (getMainFileName c)})
                                   (file_names es)
                 in if deps = [] then None else Some deps))"
proof -
  obtain out where "processTool env p = (out, Some (t, c))"
    using assms by (cases "processTool env p") auto
  from processTool_Some[OF this] obtain metadata deps where
    d: "snd (findDependencies env p c) = Inr deps"
    and b: "buildTool metadata (extractToolName p) deps
              (snd (getLastCommitDate env (path_dirname p))) = Inr t"
    by blast
  from buildTool_Inr[OF b] have dt: "dependencies t = (if deps = [] then None else Some deps)"
    by blast
  from findDependencies_Inr[OF d] obtain entries where
    e: "readdirSync env (path_dirname p) = Inr entries"
       "deps = filter (\<lambda>e. e \<notin> {''metadata.json'', snd (getMainFileName c)}
                      \<and> (case resolve env (path_join (path_dirname p) e) of
                            None \<Rightarrow> False
                          | Some n \<Rightarrow> isFile n)) entries"
    by blast
  have first: "\<exists>entries. readdirSync env (path_dirname p) = Inr entries
            \<and> dependencies t =
                (let deps = filter (\<lambda>e. e \<notin> {''metadata.json'', snd (getMainFileName c)}
                                      \<and> (case resolve env (path_join (path_dirname p) e) of
                                            None \<Rightarrow> False
                                          | Some n \<Rightarrow> isFile n)) entries
                 in if deps = [] then None else Some deps)"
    using e dt by (auto simp: Let_def)
  have second: "dependencies t =
                (let deps = filter (\<lambda>n. n \<notin> {''metadata.json'', snd (getMainFileName c)})
                                   (file_names es)
                 in if deps = [] then None else Some deps)"
    if h: "p = abs_path (segs @ [''metadata.json''])" "list_all valid_name segs"
          "resolve env (abs_path segs) = Some (Dir es)" "wf_entries es"
  proof -
    have dir: "path_dirname p = abs_path segs" using h(1,2) valid_metadata by (simp add: dirname_abs)
    have names: "list_all valid_name (map fst es)" "distinct (map fst es)"
      using wf_entries_names[OF h(4)] by auto
    have ent: "entries = map fst es" using e(1) h(3) dir by (simp add: readdirSync_def)
    have "deps = filter (\<lambda>n. n \<notin> {''metadata.json'', snd (getMainFileName c)}
                      \<and> (case map_of es n of None \<Rightarrow> False | Some n \<Rightarrow> isFile n)) (map fst es)"
      unfolding e(2) ent dir
      using names(1) resolve_child'[OF h(2) _ h(3)]
      by (intro filter_cong) (auto simp: list_all_iff)
    then have "deps = filter (\<lambda>n. n \<notin> {''metadata.json'', snd (getMainFileName c)}) (file_names es)"
      using file_names_by_lookup[OF names(2),
              of "\<lambda>n. n \<notin> {''metadata.json'', snd (getMainFileName c)}"]
      by (simp add: conj_assoc)
    then show ?thesis using dt by (simp add: Let_def)
  qed
  show ?thesis using first second by blast
qed

theorem C4_dependencies_witness:
  \<open>snd (processTool (repo basic_tools) ''/repo/tools/blender/a/metadata.json'')
     = Some (\<lparr> name = JStr ''A'', description = JStr [], folder = ''a'',
               updated_at = ''2024-05-01T10:00:00+02:00'',
               dependencies = Some [''helper.py''], tool_id = None \<rparr>, ''blender'')
   \<and> ''/repo/tools/blender/a/metadata.json''
       = abs_path ([''repo'', ''tools'', ''blender'', ''a''] @ [''metadata.json''])
   \<and> list_all valid_name [''repo'', ''tools'', ''blender'', ''a'']
   \<and> resolve (repo basic_tools) (abs_path [''repo'', ''tools'', ''blender'', ''a''])
       = Some (tool_dir ''{"name":"A"}''
                 [(''helper.py'', File ''import bpy''), (''tool.py'', File ''pass''),
                  (''data'', Dir [])])
   \<and> file_names [(''metadata.json'', File ''{"name":"A"}''), (''helper.py'', File ''import bpy''),
                  (''tool.py'', File ''pass''), (''data'', Dir [])]
       = [''metadata.json'', ''helper.py'', ''tool.py'']
   \<and> Some [''helper.py'']
       = (let deps = filter (\<lambda>n. n \<notin> {''metadata.json'', snd (getMainFileName ''blender'')})
                        (file_names [(''metadata.json'', File ''{"name":"A"}''),
                                     (''helper.py'', File ''import bpy''),
                                     (''tool.py'', File ''pass''), (''data'', Dir [])])
          in if deps = [] then None else Some deps)\<close>
proof -
  let ?es = \<open>[(''metadata.json'', File ''{"name":"A"}''), (''helper.py'', File ''import bpy''),
              (''tool.py'', File ''pass''), (''data'', Dir [])]\<close>
  let ?t = "\<lparr> name = JStr ''A'', description = JStr [], folder = ''a'',
               updated_at = ''2024-05-01T10:00:00+02:00'',
               dependencies = Some [''helper.py''], tool_id = None \<rparr>"
  have h1: "snd (processTool (repo basic_tools) ''/repo/tools/blender/a/metadata.json'')
              = Some (?t, ''blender'')" by code_simp
  have h2: "''/repo/tools/blender/a/metadata.json''
              = abs_path ([''repo'', ''tools'', ''blender'', ''a''] @ [''metadata.json''])"
    by code_simp
  have h3: "list_all valid_name [''repo'', ''tools'', ''blender'', ''a'']" by code_simp
  have h4: "resolve (repo basic_tools) (abs_path [''repo'', ''tools'', ''blender'', ''a''])
              = Some (Dir ?es)" by code_simp
  have h5: "wf_entries ?es" by code_simp
  have h6: "file_names ?es = [''metadata.json'', ''helper.py'', ''tool.py'']" by code_simp
  from C4_dependencies[OF h1, where segs = "[''repo'', ''tools'', ''blender'', ''a'']"
         and es = ?es] h2 h3 h4 h5
  have "dependencies ?t =
          (let deps = filter (\<lambda>n. n \<notin> {''metadata.json'', snd (getMainFileName ''blender'')})
                        (file_names ?es)
           in if deps = [] then None else Some deps)"
    by blast
  then have h7: "Some [''helper.py''] =
          (let deps = filter (\<lambda>n. n \<notin> {''metadata.json'', snd (getMainFileName ''blender'')})
                        (file_names ?es)
           in if deps = [] then None else Some deps)"
    by simp
  from h1 h2 h3 h4 h6 h7 show ?thesis unfolding tool_dir_def by blast
qed

subsection \<open>C5: the id\<close>

text \<open>
  C5. For every successfully processed tool whose descriptor has a string for its
  \<^verbatim>\<open>id\<close>, the record has an \<^verbatim>\<open>id\<close> if and only if that string is not empty, and then
  it is that string; with no \<^verbatim>\<open>id\<close> in the descriptor the record has none.
\<close>

theorem C5_id_field:
  assumes "snd (processTool env p) = Some (t, c)"
    and "readFileSync env p = Inr content"
    and "JSON_parse env content = Some metadata"
  shows "(getProp metadata ''id'' = Inr (Some (JStr s)) \<longrightarrow>
            (tool_id t \<noteq> None \<longleftrightarrow> s \<noteq> []) \<and> (s \<noteq> [] \<longrightarrow> tool_id t = Some (JStr s)))
       \<and> (getProp metadata ''id'' = Inr None \<longrightarrow> tool_id t = None)"
proof -
  obtain out where "processTool env p = (out, Some (t, c))"
    using assms(1) by (cases "processTool env p") auto
  from processTool_Some[OF this] assms(2,3) obtain deps where
    "buildTool metadata (extractToolName p) deps
       (snd (getLastCommitDate env (path_dirname p))) = Inr t"
    by auto
  from buildTool_Inr[OF this] show ?thesis by auto
qed

theorem C5_id_field_witness:
  \<open>snd (processTool (repo field_tools) ''/repo/tools/sketchup/b/metadata.json'')
     = Some (\<lparr> name = JStr ''B'', description = JStr ''Second'', folder = ''b'',
               updated_at = ''2024-05-01T10:00:00+02:00'',
               dependencies = None, tool_id = Some (JStr ''b-1'') \<rparr>, ''sketchup'')
   \<and> readFileSync (repo field_tools) ''/repo/tools/sketchup/b/metadata.json''
       = Inr ''{"name":"B","description":"Second","id":"b-1"}''
   \<and> JSON_parse (repo field_tools) ''{"name":"B","description":"Second","id":"b-1"}''
       = Some (JObj [(''name'', JStr ''B''), (''description'', JStr ''Second''),
                     (''id'', JStr ''b-1'')])
   \<and> getProp (JObj [(''name'', JStr ''B''), (''description'', JStr ''Second''),
                     (''id'', JStr ''b-1'')]) ''id'' = Inr (Some (JStr ''b-1''))
   \<and> Some (JStr ''b-1'') \<noteq> None\<close>
proof -
  let ?t = "\<lparr> name = JStr ''B'', description = JStr ''Second'', folder = ''b'',
               updated_at = ''2024-05-01T10:00:00+02:00'',
               dependencies = None, tool_id = Some (JStr ''b-1'') \<rparr>"
  let ?md = "JObj [(''name'', JStr ''B''), (''description'', JStr ''Second''),
                   (''id'', JStr ''b-1'')]"
  have h1: \<open>snd (processTool (repo field_tools) ''/repo/tools/sketchup/b/metadata.json'')
              = Some (?t, ''sketchup'')\<close> by code_simp
  have h2: \<open>readFileSync (repo field_tools) ''/repo/tools/sketchup/b/metadata.json''
              = Inr ''{"name":"B","description":"Second","id":"b-1"}''\<close> by code_simp
  have h3: \<open>JSON_parse (repo field_tools) ''{"name":"B","description":"Second","id":"b-1"}''
              = Some ?md\<close> by code_simp
  have h4: "getProp ?md ''id'' = Inr (Some (JStr ''b-1''))" by code_simp
  from C5_id_field[OF h1 h2 h3, where s = "''b-1''"] h4 have "tool_id ?t \<noteq> None" by blast
  then have h5: "Some (JStr ''b-1'') \<noteq> None" by simp
  from h1 h2 h3 h4 h5 show ?thesis by blast
qed

subsection \<open>C6: the name and the description\<close>

text \<open>
  C6, as stated: the output \<^verbatim>\<open>name\<close> is the descriptor's \<^verbatim>\<open>name\<close> whenever the
  descriptor supplies one, and the folder name only when it omits it. A descriptor
  that supplies the empty string gets the folder name.
\<close>

theorem C6_empty_name_counterexample:
  \<open>readFileSync (repo field_tools) ''/repo/tools/sketchup/a/metadata.json''
     = Inr ''{"name":""}''
   \<and> JSON_parse (repo field_tools) ''{"name":""}'' = Some (JObj [(''name'', JStr [])])
   \<and> getProp (JObj [(''name'', JStr [])]) ''name'' = Inr (Some (JStr []))
   \<and> snd (processTool (repo field_tools) ''/repo/tools/sketchup/a/metadata.json'')
       = Some (\<lparr> name = JStr ''a'', description = JStr [], folder = ''a'',
                 updated_at = ''2024-05-01T10:00:00+02:00'',
                 dependencies = None, tool_id = None \<rparr>, ''sketchup'')
   \<and> JStr ''a'' \<noteq> JStr []\<close>
  by code_simp

text \<open>
  C6, amended: for every successfully processed tool, the output \<^verbatim>\<open>name\<close> is the
  descriptor's \<^verbatim>\<open>name\<close> when that is a non-empty string, and the folder name when
  the descriptor has no \<^verbatim>\<open>name\<close> or an empty one; \<^verbatim>\<open>description\<close> is the descriptor's
  string when it has one and the empty string when it has none; \<^verbatim>\<open>folder\<close> is the
  name of the descriptor's directory.
\<close>

theorem C6_name_description:
  assumes "snd (processTool env p) = Some (t, c)"
    and "readFileSync env p = Inr content"
    and "JSON_parse env content = Some metadata"
  shows "(getProp metadata ''name'' = Inr (Some (JStr s)) \<and> s \<noteq> [] \<longrightarrow> name t = JStr s)
       \<and> (getProp metadata ''name'' = Inr (Some (JStr [])) \<longrightarrow> name t = JStr (extractToolName p))
       \<and> (getProp metadata ''name'' = Inr None \<longrightarrow> name t = JStr (extractToolName p))
       \<and> (getProp metadata ''description'' = Inr (Some (JStr d)) \<longrightarrow> description t = JStr d)
       \<and> (getProp metadata ''description'' = Inr None \<longrightarrow> description t = JStr [])
       \<and> folder t = extractToolName p"
proof -
  obtain out where "processTool env p = (out, Some (t, c))"
    using assms(1) by (cases "processTool env p") auto
  from processTool_Some[OF this] assms(2,3) obtain deps where
    "buildTool metadata (extractToolName p) deps
       (snd (getLastCommitDate env (path_dirname p))) = Inr t"
    by auto
  from buildTool_Inr[OF this] show ?thesis by auto
qed

theorem C6_name_description_witness:
  \<open>snd (processTool (repo field_tools) ''/repo/tools/sketchup/b/metadata.json'')
     = Some (\<lparr> name = JStr ''B'', description = JStr ''Second'', folder = ''b'',
               updated_at = ''2024-05-01T10:00:00+02:00'',
               dependencies = None, tool_id = Some (JStr ''b-1'') \<rparr>, ''sketchup'')
   \<and> readFileSync (repo field_tools) ''/repo/tools/sketchup/b/metadata.json''
       = Inr ''{"name":"B","description":"Second","id":"b-1"}''
   \<and> JSON_parse (repo field_tools) ''{"name":"B","description":"Second","id":"b-1"}''
       = Some (JObj [(''name'', JStr ''B''), (''description'', JStr ''Second''),
                     (''id'', JStr ''b-1'')])
   \<and> getProp (JObj [(''name'', JStr ''B''), (''description'', JStr ''Second''),
                     (''id'', JStr ''b-1'')]) ''name'' = Inr (Some (JStr ''B''))
   \<and> getProp (JObj [(''name'', JStr ''B''), (''description'', JStr ''Second''),
                     (''id'', JStr ''b-1'')]) ''description'' = Inr (Some (JStr ''Second''))
   \<and> ''b'' = extractToolName ''/repo/tools/sketchup/b/metadata.json''\<close>
proof -
  let ?t = "\<lparr> name = JStr ''B'', description = JStr ''Second'', folder = ''b'',
               updated_at = ''2024-05-01T10:00:00+02:00'',
               dependencies = None, tool_id = Some (JStr ''b-1'') \<rparr>"
  let ?md = "JObj [(''name'', JStr ''B''), (''description'', JStr ''Second''),
                   (''id'', JStr ''b-1'')]"
  have h1: \<open>snd (processTool (repo field_tools) ''/repo/tools/sketchup/b/metadata.json'')
              = Some (?t, ''sketchup'')\<close> by code_simp
  have h2: \<open>readFileSync (repo field_tools) ''/repo/tools/sketchup/b/metadata.json''
              = Inr ''{"name":"B","description":"Second","id":"b-1"}''\<close> by code_simp
  have h3: \<open>JSON_parse (repo field_tools) ''{"name":"B","description":"Second","id":"b-1"}''
              = Some ?md\<close> by code_simp
  have h4: "getProp ?md ''name'' = Inr (Some (JStr ''B''))" by code_simp
  have h5: "getProp ?md ''description'' = Inr (Some (JStr ''Second''))" by code_simp
  from C6_name_description[OF h1 h2 h3]
  have "folder ?t = extractToolName ''/repo/tools/sketchup/b/metadata.json''" by blast
  then have h6: "''b'' = extractToolName ''/repo/tools/sketchup/b/metadata.json''" by simp
  from h1 h2 h3 h4 h5 h6 show ?thesis by blast
qed

subsection \<open>C7: failures stay inside the processor\<close>

text \<open>
  C7, as stated: malformed descriptor content, a missing main file, an invalid path
  structure and a failing timestamp lookup each yield a null result and a diagnostic.
  With a failing \<^verbatim>\<open>git\<close> the processor prints a warning and still returns the record,
  dated with the current time.
\<close>

theorem C7_timestamp_failure_counterexample:
  \<open>path_relative ''/repo'' ''/repo'' ''/repo/tools/blender/a'' = ''tools/blender/a''
   \<and> git_log (no_git (repo basic_tools)) ''tools/blender/a'' = None
   \<and> processTool (no_git (repo basic_tools)) ''/repo/tools/blender/a/metadata.json''
       = ([WarnGitFailed ''/repo/tools/blender/a'', LogProcessed (JStr ''A'') ''blender''],
          Some (\<lparr> name = JStr ''A'', description = JStr [], folder = ''a'',
                  updated_at = ''2024-06-01T00:00:00.000Z'',
                  dependencies = Some [''helper.py''], tool_id = None \<rparr>, ''blender''))
   \<and> snd (processTool (no_git (repo basic_tools)) ''/repo/tools/blender/a/metadata.json'')
       \<noteq> None\<close>
  by code_simp

text \<open>
  C7, amended. The result of \<^verbatim>\<open>processTool\<close> is a record exactly when the descriptor
  is read and parsed, its path has a category, the main file exists, the directory is
  listed, the record is built and its line is printed; in every other case, whatever
  is thrown on the way, the result is null, with an error line, and the loop over the
  descriptors ends as it does on the descriptors with a record alone. In particular a
  descriptor that cannot be read, malformed content, an invalid path structure (no
  \<^verbatim>\<open>tools\<close> segment, or none after it), a missing main file, and a name or id that
  has no string form each yield null and the line given. A failing timestamp lookup
  does not: it never changes whether the result is null, and the record of a tool
  processed with it carries the current time, with a warning printed.
\<close>

theorem C7_failures_contained:
  "((snd (processTool env p) \<noteq> None) =
      (\<exists>content metadata c deps t line.
          readFileSync env p = Inr content \<and> JSON_parse env content = Some metadata
        \<and> extractSoftwareType p = Inr c
        \<and> existsSync env (path_join (path_dirname p) (snd (getMainFileName c)))
        \<and> snd (findDependencies env p c) = Inr deps
        \<and> buildTool metadata (extractToolName p) deps
             (snd (getLastCommitDate env (path_dirname p))) = Inr t
        \<and> processTool_log metadata t c = Inr line))
   \<and> (snd (processTool env p) = None \<longrightarrow>
         (\<exists>e. ErrorFailedToProcess p e \<in> set (fst (processTool env p)))
       \<or> (\<exists>m. ErrorSkipping (extractToolName p) m \<in> set (fst (processTool env p))))
   \<and> snd (processAll env files obj)
       = snd (processAll env (filter (\<lambda>q. snd (processTool env q) \<noteq> None) files) obj)
   \<and> (readFileSync env p = Inl e0 \<longrightarrow>
         processTool env p = ([ErrorFailedToProcess p e0], None))
   \<and> (readFileSync env p = Inr content0 \<and> JSON_parse env content0 = None \<longrightarrow>
         processTool env p = ([ErrorFailedToProcess p SyntaxError], None))
   \<and> (extractSoftwareType p = Inl e1 \<longrightarrow> snd (processTool env p) = None)
   \<and> (readFileSync env p = Inr content0 \<and> JSON_parse env content0 = Some metadata0
        \<and> extractSoftwareType p = Inl e1 \<longrightarrow>
         processTool env p = ([ErrorFailedToProcess p (InvalidToolPath p)], None))
   \<and> (extractSoftwareType p = Inr c0
        \<and> \<not> existsSync env (path_join (path_dirname p) (snd (getMainFileName c0))) \<longrightarrow>
         snd (processTool env p) = None)
   \<and> (readFileSync env p = Inr content0 \<and> JSON_parse env content0 = Some metadata0
        \<and> extractSoftwareType p = Inr c0
        \<and> \<not> existsSync env (path_join (path_dirname p) (snd (getMainFileName c0))) \<longrightarrow>
         processTool env p
           = (fst (getMainFileName c0) @ fst (getMainFileName c0)
                @ [ErrorSkipping (extractToolName p) (snd (getMainFileName c0))], None))
   \<and> (readFileSync env p = Inr content0 \<and> JSON_parse env content0 = Some metadata0
        \<and> (getProp metadata0 ''name'' = Inr (Some v) \<or> getProp metadata0 ''id'' = Inr (Some v))
        \<and> truthy v \<and> toString_throws v \<longrightarrow>
         snd (processTool env p) = None)
   \<and> ((snd (processTool (env\<lparr>git_log := g\<rparr>) p) = None) = (snd (processTool env p) = None))
   \<and> (git_log env (path_relative (cwd env) (cwd env) (path_dirname p)) = None
        \<and> processTool env p = (out0, Some (t0, c1)) \<longrightarrow>
         updated_at t0 = clock_now env \<and> WarnGitFailed (path_dirname p) \<in> set out0)"
proof -
  have k1: "(snd (processTool env p) \<noteq> None) =
      (\<exists>content metadata c deps t line.
          readFileSync env p = Inr content \<and> JSON_parse env content = Some metadata
        \<and> extractSoftwareType p = Inr c
        \<and> existsSync env (path_join (path_dirname p) (snd (getMainFileName c)))
        \<and> snd (findDependencies env p c) = Inr deps
        \<and> buildTool metadata (extractToolName p) deps
             (snd (getLastCommitDate env (path_dirname p))) = Inr t
        \<and> processTool_log metadata t c = Inr line)"
    by (rule processTool_Some_iff)
  have k2: "snd (processTool env p) = None \<longrightarrow>
         (\<exists>e. ErrorFailedToProcess p e \<in> set (fst (processTool env p)))
       \<or> (\<exists>m. ErrorSkipping (extractToolName p) m \<in> set (fst (processTool env p)))"
    using processTool_None_diag[of env p] by blast
  have k3: "snd (processAll env files obj)
       = snd (processAll env (filter (\<lambda>q. snd (processTool env q) \<noteq> None) files) obj)"
    by (rule processAll_skips)
  have k4: "readFileSync env p = Inl e0 \<longrightarrow>
         processTool env p = ([ErrorFailedToProcess p e0], None)"
    using processTool_unreadable[of env p e0] by blast
  have k5: "readFileSync env p = Inr content0 \<and> JSON_parse env content0 = None \<longrightarrow>
         processTool env p = ([ErrorFailedToProcess p SyntaxError], None)"
    using processTool_parse_error[of env p content0] by blast
  have k6: "extractSoftwareType p = Inl e1 \<longrightarrow> snd (processTool env p) = None"
    using processTool_bad_path[of p e1 env] by blast
  have k7: "readFileSync env p = Inr content0 \<and> JSON_parse env content0 = Some metadata0
        \<and> extractSoftwareType p = Inl e1 \<longrightarrow>
         processTool env p = ([ErrorFailedToProcess p (InvalidToolPath p)], None)"
    using processTool_bad_path_line[of env p content0 metadata0 e1]
      extractSoftwareType_error[of p e1] by blast
  have k8: "extractSoftwareType p = Inr c0
        \<and> \<not> existsSync env (path_join (path_dirname p) (snd (getMainFileName c0))) \<longrightarrow>
         snd (processTool env p) = None"
    using processTool_missing_main[of p c0 env] by blast
  have k9: "readFileSync env p = Inr content0 \<and> JSON_parse env content0 = Some metadata0
        \<and> extractSoftwareType p = Inr c0
        \<and> \<not> existsSync env (path_join (path_dirname p) (snd (getMainFileName c0))) \<longrightarrow>
         processTool env p
           = (fst (getMainFileName c0) @ fst (getMainFileName c0)
                @ [ErrorSkipping (extractToolName p) (snd (getMainFileName c0))], None)"
    using processTool_missing_main_line[of env p content0 metadata0 c0] by blast
  have k10: "readFileSync env p = Inr content0 \<and> JSON_parse env content0 = Some metadata0
        \<and> (getProp metadata0 ''name'' = Inr (Some v) \<or> getProp metadata0 ''id'' = Inr (Some v))
        \<and> truthy v \<and> toString_throws v \<longrightarrow>
         snd (processTool env p) = None"
    using processTool_unprintable_name[of env p content0 metadata0 v]
      processTool_unprintable_id[of env p content0 metadata0 v] by blast
  have k11: "(snd (processTool (env\<lparr>git_log := g\<rparr>) p) = None) = (snd (processTool env p) = None)"
    by (rule processTool_git_independent)
  have k12: "git_log env (path_relative (cwd env) (cwd env) (path_dirname p)) = None
        \<and> processTool env p = (out0, Some (t0, c1)) \<longrightarrow>
         updated_at t0 = clock_now env \<and> WarnGitFailed (path_dirname p) \<in> set out0"
    using processTool_git_failed[of env p out0 t0 c1] by blast
  show ?thesis
    apply (intro conjI)
    apply (rule k1)
    apply (rule k2)
    apply (rule k3)
    apply (rule k4)
    apply (rule k5)
    apply (rule k6)
    apply (rule k7)
    apply (rule k8)
    apply (rule k9)
    apply (rule k10)
    apply (rule k11)
    apply (rule k12)
    done
qed

theorem C7_failures_contained_witness:
  \<open>readFileSync (repo basic_tools) ''/repo/tools/blender/d/metadata.json''
     = Inl (ENOENT ''/repo/tools/blender/d/metadata.json'')
   \<and> processTool (repo basic_tools) ''/repo/tools/blender/d/metadata.json''
       = ([ErrorFailedToProcess ''/repo/tools/blender/d/metadata.json''
             (ENOENT ''/repo/tools/blender/d/metadata.json'')], None)
   \<and> readFileSync (repo basic_tools) ''/repo/tools/blender/c/metadata.json'' = Inr ''{"name":''
   \<and> JSON_parse (repo basic_tools) ''{"name":'' = None
   \<and> processTool (repo basic_tools) ''/repo/tools/blender/c/metadata.json''
       = ([ErrorFailedToProcess ''/repo/tools/blender/c/metadata.json'' SyntaxError], None)
   \<and> readFileSync stray_descriptor ''/repo/metadata.json'' = Inr ''{}''
   \<and> JSON_parse stray_descriptor ''{}'' = Some (JObj [])
   \<and> extractSoftwareType ''/repo/metadata.json'' = Inl (InvalidToolPath ''/repo/metadata.json'')
   \<and> processTool stray_descriptor ''/repo/metadata.json''
       = ([ErrorFailedToProcess ''/repo/metadata.json'' (InvalidToolPath ''/repo/metadata.json'')],
          None)
   \<and> snd (processTool stray_descriptor ''/repo/metadata.json'') = None
   \<and> readFileSync (repo basic_tools) ''/repo/tools/blender/b/metadata.json'' = Inr ''{}''
   \<and> JSON_parse (repo basic_tools) ''{}'' = Some (JObj [])
   \<and> extractSoftwareType ''/repo/tools/blender/b/metadata.json'' = Inr ''blender''
   \<and> \<not> existsSync (repo basic_tools)
         (path_join (path_dirname ''/repo/tools/blender/b/metadata.json'')
            (snd (getMainFileName ''blender'')))
   \<and> snd (processTool (repo basic_tools) ''/repo/tools/blender/b/metadata.json'') = None
   \<and> processTool (repo basic_tools) ''/repo/tools/blender/b/metadata.json''
       = ([ErrorSkipping ''b'' ''tool.py''], None)
   \<and> ((\<exists>e. ErrorFailedToProcess ''/repo/tools/blender/b/metadata.json'' e
             \<in> set (fst (processTool (repo basic_tools) ''/repo/tools/blender/b/metadata.json'')))
      \<or> (\<exists>m. ErrorSkipping (extractToolName ''/repo/tools/blender/b/metadata.json'') m
             \<in> set (fst (processTool (repo basic_tools) ''/repo/tools/blender/b/metadata.json''))))
   \<and> readFileSync (repo unprintable_tools) ''/repo/tools/blender/a/metadata.json''
       = Inr ''{"name":{"toString":"x"}}''
   \<and> JSON_parse (repo unprintable_tools) ''{"name":{"toString":"x"}}''
       = Some (JObj [(''name'', JObj [(''toString'', JStr ''x'')])])
   \<and> getProp (JObj [(''name'', JObj [(''toString'', JStr ''x'')])]) ''name''
       = Inr (Some (JObj [(''toString'', JStr ''x'')]))
   \<and> truthy (JObj [(''toString'', JStr ''x'')]) \<and> toString_throws (JObj [(''toString'', JStr ''x'')])
   \<and> snd (processTool (repo unprintable_tools) ''/repo/tools/blender/a/metadata.json'') = None
   \<and> readFileSync (repo unprintable_tools) ''/repo/tools/blender/b/metadata.json''
       = Inr ''{"id":[{"toString":1}]}''
   \<and> JSON_parse (repo unprintable_tools) ''{"id":[{"toString":1}]}''
       = Some (JObj [(''id'', JArr [JObj [(''toString'', JNum 1)]])])
   \<and> getProp (JObj [(''id'', JArr [JObj [(''toString'', JNum 1)]])]) ''id''
       = Inr (Some (JArr [JObj [(''toString'', JNum 1)]]))
   \<and> truthy (JArr [JObj [(''toString'', JNum 1)]])
   \<and> toString_throws (JArr [JObj [(''toString'', JNum 1)]])
   \<and> snd (processTool (repo unprintable_tools) ''/repo/tools/blender/b/metadata.json'') = None
   \<and> processTool (repo unprintable_tools) ''/repo/tools/blender/b/metadata.json''
       = ([ErrorFailedToProcess ''/repo/tools/blender/b/metadata.json'' TypeError], None)
   \<and> snd (processAll (repo basic_tools)
            [''/repo/tools/blender/a/metadata.json'', ''/repo/tools/blender/b/metadata.json'',
             ''/repo/tools/blender/c/metadata.json'']
            [(''blender'', []), (''sketchup'', [])])
       = snd (processAll (repo basic_tools) [''/repo/tools/blender/a/metadata.json'']
                [(''blender'', []), (''sketchup'', [])])
   \<and> git_log (no_git (repo basic_tools))
        (path_relative (cwd (no_git (repo basic_tools))) (cwd (no_git (repo basic_tools)))
           (path_dirname ''/repo/tools/blender/a/metadata.json'')) = None
   \<and> processTool (no_git (repo basic_tools)) ''/repo/tools/blender/a/metadata.json''
       = ([WarnGitFailed ''/repo/tools/blender/a'', LogProcessed (JStr ''A'') ''blender''],
          Some (\<lparr> name = JStr ''A'', description = JStr [], folder = ''a'',
                  updated_at = ''2024-06-01T00:00:00.000Z'',
                  dependencies = Some [''helper.py''], tool_id = None \<rparr>, ''blender''))
   \<and> ''2024-06-01T00:00:00.000Z'' = clock_now (no_git (repo basic_tools))\<close>
proof -
  let ?B = "repo basic_tools"
  let ?U = "repo unprintable_tools"
  let ?pa = "''/repo/tools/blender/a/metadata.json''"
  let ?pb = "''/repo/tools/blender/b/metadata.json''"
  let ?pc = "''/repo/tools/blender/c/metadata.json''"
  let ?pd = "''/repo/tools/blender/d/metadata.json''"
  let ?ps = "''/repo/metadata.json''"
  let ?obj = "[(''blender'', [] :: tool list), (''sketchup'', [])]"
  let ?t = "\<lparr> name = JStr ''A'', description = JStr [], folder = ''a'',
               updated_at = ''2024-06-01T00:00:00.000Z'',
               dependencies = Some [''helper.py''], tool_id = None \<rparr>"
  let ?vn = "JObj [(''toString'', JStr ''x'')]"
  let ?vi = "JArr [JObj [(''toString'', JNum 1)]]"
  have a0: "readFileSync ?B ?pd = Inl (ENOENT ?pd)" by code_simp
  have a1: \<open>readFileSync ?B ?pc = Inr ''{"name":''\<close> by code_simp
  have a2: \<open>JSON_parse ?B ''{"name":'' = None\<close> by code_simp
  have b1: "readFileSync stray_descriptor ?ps = Inr ''{}''" by code_simp
  have b2: "JSON_parse stray_descriptor ''{}'' = Some (JObj [])" by code_simp
  have b3: "extractSoftwareType ?ps = Inl (InvalidToolPath ?ps)" by code_simp
  have c1: "readFileSync ?B ?pb = Inr ''{}''" by code_simp
  have c2: "JSON_parse ?B ''{}'' = Some (JObj [])" by code_simp
  have c3: "extractSoftwareType ?pb = Inr ''blender''" by code_simp
  have c4: "\<not> existsSync ?B (path_join (path_dirname ?pb) (snd (getMainFileName ''blender'')))"
    by code_simp
  have c5: "fst (getMainFileName ''blender'') @ fst (getMainFileName ''blender'')
              @ [ErrorSkipping (extractToolName ?pb) (snd (getMainFileName ''blender''))]
            = [ErrorSkipping ''b'' ''tool.py'']" by code_simp
  have d1: \<open>readFileSync ?U ?pa = Inr ''{"name":{"toString":"x"}}''\<close> by code_simp
  have d2: \<open>JSON_parse ?U ''{"name":{"toString":"x"}}'' = Some (JObj [(''name'', ?vn)])\<close>
    by code_simp
  have d3: "getProp (JObj [(''name'', ?vn)]) ''name'' = Inr (Some ?vn)" by code_simp
  have d4: "truthy ?vn" "toString_throws ?vn" by code_simp+
  have e1: \<open>readFileSync ?U ?pb = Inr ''{"id":[{"toString":1}]}''\<close> by code_simp
  have e2: \<open>JSON_parse ?U ''{"id":[{"toString":1}]}'' = Some (JObj [(''id'', ?vi)])\<close>
    by code_simp
  have e3: "getProp (JObj [(''id'', ?vi)]) ''id'' = Inr (Some ?vi)" by code_simp
  have e4: "truthy ?vi" "toString_throws ?vi" by code_simp+
  have e5: "processTool ?U ?pb = ([ErrorFailedToProcess ?pb TypeError], None)" by code_simp
  have f1: "filter (\<lambda>q. snd (processTool ?B q) \<noteq> None) [?pa, ?pb, ?pc] = [?pa]" by code_simp
  have g1: "git_log (no_git ?B)
        (path_relative (cwd (no_git ?B)) (cwd (no_git ?B)) (path_dirname ?pa)) = None"
    by code_simp
  have g2: "processTool (no_git ?B) ?pa
       = ([WarnGitFailed ''/repo/tools/blender/a'', LogProcessed (JStr ''A'') ''blender''],
          Some (?t, ''blender''))" by code_simp
  note r0 = C7_failures_contained[where env = ?B and p = ?pd
              and ?e0.0 = "ENOENT ?pd"]
  have q0: "processTool ?B ?pd = ([ErrorFailedToProcess ?pd (ENOENT ?pd)], None)"
    by (rule r0[THEN conjunct2, THEN conjunct2, THEN conjunct2, THEN conjunct1, THEN mp, OF a0])
  note r1 = C7_failures_contained[where env = ?B and p = ?pc and ?content0.0 = \<open>''{"name":''\<close>]
  have q1: "processTool ?B ?pc = ([ErrorFailedToProcess ?pc SyntaxError], None)"
    by (rule r1[THEN conjunct2, THEN conjunct2, THEN conjunct2, THEN conjunct2, THEN conjunct1, THEN mp, OF conjI[OF a1 a2]])
  note r2 = C7_failures_contained[where env = stray_descriptor and p = ?ps
              and ?content0.0 = "''{}''" and ?metadata0.0 = "JObj []"
              and ?e1.0 = "InvalidToolPath ?ps"]
  have q2: "processTool stray_descriptor ?ps
       = ([ErrorFailedToProcess ?ps (InvalidToolPath ?ps)], None)"
    by (rule r2[THEN conjunct2, THEN conjunct2, THEN conjunct2, THEN conjunct2, THEN conjunct2, THEN conjunct2, THEN conjunct1, THEN mp, OF conjI[OF b1 conjI[OF b2 b3]]])
  have q2': "snd (processTool stray_descriptor ?ps) = None"
    by (rule r2[THEN conjunct2, THEN conjunct2, THEN conjunct2, THEN conjunct2, THEN conjunct2, THEN conjunct1, THEN mp, OF b3])
  note r3 = C7_failures_contained[where env = ?B and p = ?pb
              and ?content0.0 = "''{}''" and ?metadata0.0 = "JObj []" and ?c0.0 = "''blender''"]
  have q3: "snd (processTool ?B ?pb) = None"
    by (rule r3[THEN conjunct2, THEN conjunct2, THEN conjunct2, THEN conjunct2, THEN conjunct2, THEN conjunct2, THEN conjunct2, THEN conjunct1, THEN mp, OF conjI[OF c3 c4]])
  have "processTool ?B ?pb
           = (fst (getMainFileName ''blender'') @ fst (getMainFileName ''blender'')
                @ [ErrorSkipping (extractToolName ?pb) (snd (getMainFileName ''blender''))], None)"
    by (rule r3[THEN conjunct2, THEN conjunct2, THEN conjunct2, THEN conjunct2, THEN conjunct2, THEN conjunct2, THEN conjunct2, THEN conjunct2, THEN conjunct1, THEN mp, OF conjI[OF c1 conjI[OF c2 conjI[OF c3 c4]]]])
  then have q3': "processTool ?B ?pb = ([ErrorSkipping ''b'' ''tool.py''], None)"
    unfolding c5 .
  have q3'': "(\<exists>e. ErrorFailedToProcess ?pb e \<in> set (fst (processTool ?B ?pb)))
      \<or> (\<exists>m. ErrorSkipping (extractToolName ?pb) m \<in> set (fst (processTool ?B ?pb)))"
    by (rule r3[THEN conjunct2, THEN conjunct1, THEN mp, OF q3])
  note r4 = C7_failures_contained[where env = ?U and p = ?pa
              and ?content0.0 = \<open>''{"name":{"toString":"x"}}''\<close>
              and ?metadata0.0 = "JObj [(''name'', ?vn)]" and v = ?vn]
  have q4: "snd (processTool ?U ?pa) = None"
    by (rule r4[THEN conjunct2, THEN conjunct2, THEN conjunct2, THEN conjunct2, THEN conjunct2, THEN conjunct2, THEN conjunct2, THEN conjunct2, THEN conjunct2, THEN conjunct1, THEN mp,
          OF conjI[OF d1 conjI[OF d2 conjI[OF disjI1[OF d3] conjI[OF d4(1) d4(2)]]]]])
  note r5 = C7_failures_contained[where env = ?U and p = ?pb
              and ?content0.0 = \<open>''{"id":[{"toString":1}]}''\<close>
              and ?metadata0.0 = "JObj [(''id'', ?vi)]" and v = ?vi]
  have q5: "snd (processTool ?U ?pb) = None"
    by (rule r5[THEN conjunct2, THEN conjunct2, THEN conjunct2, THEN conjunct2, THEN conjunct2, THEN conjunct2, THEN conjunct2, THEN conjunct2, THEN conjunct2, THEN conjunct1, THEN mp,
          OF conjI[OF e1 conjI[OF e2 conjI[OF disjI2[OF e3] conjI[OF e4(1) e4(2)]]]]])
  note r6 = C7_failures_contained[where env = ?B and files = "[?pa, ?pb, ?pc]" and obj = ?obj]
  have "snd (processAll ?B [?pa, ?pb, ?pc] ?obj)
       = snd (processAll ?B (filter (\<lambda>q. snd (processTool ?B q) \<noteq> None) [?pa, ?pb, ?pc]) ?obj)"
    by (rule r6[THEN conjunct2, THEN conjunct2, THEN conjunct1])
  then have q6: "snd (processAll ?B [?pa, ?pb, ?pc] ?obj) = snd (processAll ?B [?pa] ?obj)"
    unfolding f1 .
  note r7 = C7_failures_contained[where env = "no_git ?B" and p = ?pa
         and ?out0.0 = "[WarnGitFailed ''/repo/tools/blender/a'', LogProcessed (JStr ''A'') ''blender'']"
         and ?t0.0 = ?t and ?c1.0 = "''blender''"]
  have "updated_at ?t = clock_now (no_git ?B)"
    by (rule r7[THEN conjunct2, THEN conjunct2, THEN conjunct2, THEN conjunct2, THEN conjunct2, THEN conjunct2, THEN conjunct2, THEN conjunct2, THEN conjunct2, THEN conjunct2, THEN conjunct2, THEN mp, OF conjI[OF g1 g2], THEN conjunct1])
  then have q7: "''2024-06-01T00:00:00.000Z'' = clock_now (no_git ?B)" by simp
  show ?thesis
    apply (intro conjI)
    apply (rule a0) apply (rule q0)
    apply (rule a1) apply (rule a2) apply (rule q1)
    apply (rule b1) apply (rule b2) apply (rule b3) apply (rule q2) apply (rule q2')
    apply (rule c1) apply (rule c2) apply (rule c3) apply (rule c4) apply (rule q3)
    apply (rule q3') apply (rule q3'')
    apply (rule d1) apply (rule d2) apply (rule d3) apply (rule d4(1)) apply (rule d4(2))
    apply (rule q4)
    apply (rule e1) apply (rule e2) apply (rule e3) apply (rule e4(1)) apply (rule e4(2))
    apply (rule q5) apply (rule e5)
    apply (rule q6)
    apply (rule g1) apply (rule g2) apply (rule q7)
    done
qed

subsection \<open>C8: the exit status\<close>




subsection \<open>C9: the category of a descriptor path\<close>

text \<open>
  C9, as stated: for every descriptor path the derived category is the segment after
  the \<^verbatim>\<open>tools\<close> segment and coincides with the name of the descriptor's
  parent-of-parent directory. For a descriptor one level further down the two differ.
\<close>

theorem C9_nested_descriptor_counterexample:
  "extractSoftwareType ''/repo/tools/blender/a/sub/metadata.json'' = Inr ''blender''
   \<and> path_basename (path_dirname (path_dirname ''/repo/tools/blender/a/sub/metadata.json''))
       = ''a''
   \<and> extractSoftwareType ''/repo/tools/blender/a/sub/metadata.json''
       \<noteq> Inr (path_basename (path_dirname (path_dirname
                 ''/repo/tools/blender/a/sub/metadata.json'')))"
  by code_simp

text \<open>
  C9, amended: for every descriptor path, split at slashes after its backslashes are
  turned into slashes, the derived category is the segment after the first \<^verbatim>\<open>tools\<close>
  segment, and the derivation fails exactly when there is no \<^verbatim>\<open>tools\<close> segment or
  the first one is the last segment. For a path
  \<^verbatim>\<open>/<segments>/tools/<category>/<tool>/metadata.json\<close> whose leading segments hold
  no \<^verbatim>\<open>tools\<close> and, like the category, no backslash, the derived category is the
  name of the descriptor's parent-of-parent directory.
\<close>

theorem C9_category_derivation:
  "((extractSoftwareType p = Inr c) =
      (\<exists>pre post. split_on slash (replace_backslashes p) = pre @ ''tools'' # c # post
                   \<and> ''tools'' \<notin> set pre))
   \<and> ((\<exists>e. extractSoftwareType p = Inl e) =
        (''tools'' \<notin> set (split_on slash (replace_backslashes p))
         \<or> (\<exists>pre. split_on slash (replace_backslashes p) = pre @ [''tools'']
                   \<and> ''tools'' \<notin> set pre)))
   \<and> (list_all valid_name (segs @ [cat, tool]) \<and> ''tools'' \<notin> set segs
        \<and> list_all (\<lambda>s. backslash \<notin> set s) (segs @ [cat])
        \<and> p = abs_path (segs @ [''tools'', cat, tool, ''metadata.json''])
       \<longrightarrow> extractSoftwareType p = Inr cat
           \<and> path_basename (path_dirname (path_dirname p)) = cat)"
  using extractSoftwareType_Inr_iff[of p c] extractSoftwareType_Inl_iff[of p]
        layout_category[of segs cat tool]
  by blast

theorem C9_category_derivation_witness:
  "list_all valid_name ([''repo''] @ [''blender'', ''a'']) \<and> ''tools'' \<notin> set [''repo'']
   \<and> list_all (\<lambda>s. backslash \<notin> set s) ([''repo''] @ [''blender''])
   \<and> ''/repo/tools/blender/a/metadata.json''
       = abs_path ([''repo''] @ [''tools'', ''blender'', ''a'', ''metadata.json''])
   \<and> extractSoftwareType ''/repo/tools/blender/a/metadata.json'' = Inr ''blender''
   \<and> path_basename (path_dirname (path_dirname ''/repo/tools/blender/a/metadata.json''))
       = ''blender''
   \<and> split_on slash (replace_backslashes ''/repo/tools'') = [[], ''repo''] @ [''tools'']
   \<and> ''tools'' \<notin> set [[], ''repo'']
   \<and> (\<exists>e. extractSoftwareType ''/repo/tools'' = Inl e)"
proof -
  have h1: "list_all valid_name ([''repo''] @ [''blender'', ''a''])" by code_simp
  have h2: "''tools'' \<notin> set [''repo'']" by code_simp
  have h3: "list_all (\<lambda>s. backslash \<notin> set s) ([''repo''] @ [''blender''])" by code_simp
  have h4: "''/repo/tools/blender/a/metadata.json''
              = abs_path ([''repo''] @ [''tools'', ''blender'', ''a'', ''metadata.json''])"
    by code_simp
  have h5: "split_on slash (replace_backslashes ''/repo/tools'') = [[], ''repo''] @ [''tools'']"
    by code_simp
  have h6: "''tools'' \<notin> set [[], ''repo'']" by code_simp
  from C9_category_derivation[where p = "''/repo/tools/blender/a/metadata.json''"
         and segs = "[''repo'']" and cat = "''blender''" and tool = "''a''"] h1 h2 h3 h4
  have r1: "extractSoftwareType ''/repo/tools/blender/a/metadata.json'' = Inr ''blender''
     \<and> path_basename (path_dirname (path_dirname ''/repo/tools/blender/a/metadata.json''))
         = ''blender''"
    by blast
  from C9_category_derivation[where p = "''/repo/tools''"] h5 h6
  have r2: "\<exists>e. extractSoftwareType ''/repo/tools'' = Inl e" by blast
  from h1 h2 h3 h4 h5 h6 r1 r2 show ?thesis by blast
qed

subsection \<open>C10: no check of the depth\<close>

text \<open>
  C10, as stated: a \<^verbatim>\<open>metadata.json\<close> directly inside a category directory is
  processed as a tool whose folder and derived category both are the category
  directory's name. In a checkout below a directory named \<^verbatim>\<open>tools\<close> the derived
  category is the segment after that directory, not the category directory's name.
\<close>

theorem C10_checkout_below_tools_counterexample:
  \<open>resolve nested_checkout ''/srv/tools/repo/tools/blender/metadata.json''
     = Some (File ''{"name":"A"}'')
   \<and> snd (processTool nested_checkout ''/srv/tools/repo/tools/blender/metadata.json'')
       = Some (\<lparr> name = JStr ''A'', description = JStr [], folder = ''blender'',
                 updated_at = ''2024-05-01T10:00:00+02:00'',
                 dependencies = None, tool_id = None \<rparr>, ''repo'')
   \<and> ''repo'' \<noteq> ''blender''\<close>
  by code_simp

text \<open>
  C10, amended: the scanner returns every regular file named \<^verbatim>\<open>metadata.json\<close> below
  the tools root, at any depth. In a checkout whose path has no segment \<^verbatim>\<open>tools\<close>
  and no backslash, a descriptor directly inside a category directory (whose name has
  no backslash), when it is processed successfully, gives a record whose folder and
  category both are the category directory's name, and its main file is an entry of
  the category directory itself.
\<close>

theorem C10_no_depth_check:
  assumes "cwd env = abs_path segs" and "list_all valid_name segs"
    and "''tools'' \<notin> set segs" and "list_all (\<lambda>s. backslash \<notin> set s) segs"
    and "resolve env (path_join (cwd env) ''tools'') = Some (Dir es)"
    and "wf_entries es"
  shows "(descend (Dir es) (rel @ [''metadata.json'']) = Some (File content)
            \<longrightarrow> (\<exists>files. findMetadataFiles env (path_join (cwd env) ''tools'') = Inr files
                   \<and> abs_path (segs @ ''tools'' # rel @ [''metadata.json'']) \<in> set files))
       \<and> (map_of es cat = Some (Dir sub) \<and> backslash \<notin> set cat
            \<and> snd (processTool env (abs_path (segs @ [''tools'', cat, ''metadata.json''])))
                = Some (t, c)
            \<longrightarrow> folder t = cat \<and> c = cat
                \<and> map_of sub (snd (getMainFileName cat)) \<noteq> None)"
proof -
  have td: "path_join (cwd env) ''tools'' = abs_path (segs @ [''tools''])"
    using assms(1,2) by (rule toolsDir_abs)
  have v: "list_all valid_name (segs @ [''tools''])" using assms(2) valid_tools by simp
  have files: "findMetadataFiles env (path_join (cwd env) ''tools'')
                 = Inr (map (\<lambda>rel. abs_path ((segs @ [''tools'']) @ rel)) (descriptor_paths es))"
    unfolding td using v assms(5)[unfolded td] assms(6) by (intro findMetadataFiles_abs) auto
  have scan: "\<exists>files. findMetadataFiles env (path_join (cwd env) ''tools'') = Inr files
                   \<and> abs_path (segs @ ''tools'' # rel @ [''metadata.json'']) \<in> set files"
    if "descend (Dir es) (rel @ [''metadata.json'']) = Some (File content)"
  proof -
    from descend_descriptor[OF that] have "rel @ [''metadata.json''] \<in> set (descriptor_paths es)" .
    then have "abs_path ((segs @ [''tools'']) @ (rel @ [''metadata.json'']))
                 \<in> set (map (\<lambda>rel. abs_path ((segs @ [''tools'']) @ rel)) (descriptor_paths es))"
      unfolding set_map by (rule imageI)
    then show ?thesis using files by simp
  qed
  have proc: "folder t = cat \<and> c = cat \<and> map_of sub (snd (getMainFileName cat)) \<noteq> None"
    if h: "map_of es cat = Some (Dir sub)" "backslash \<notin> set cat"
          "snd (processTool env (abs_path (segs @ [''tools'', cat, ''metadata.json''])))
                = Some (t, c)"
  proof -
    let ?p = "abs_path (segs @ [''tools'', cat, ''metadata.json''])"
    have "cat \<in> set (map fst es)" using h(1) by (auto dest: map_of_SomeD intro: rev_image_eqI)
    then have vc: "valid_name cat" using wf_entries_names[OF assms(6)] by (auto simp: list_all_iff)
    from category_descriptor[OF assms(2,3,4) vc h(2)] have
      cd: "extractSoftwareType ?p = Inr cat" "extractToolName ?p = cat"
          "path_dirname ?p = abs_path (segs @ [''tools'', cat])"
      by auto
    have rc: "resolve env (abs_path ((segs @ [''tools'']) @ [cat])) = Some (Dir sub)"
      using resolve_child'[OF v vc assms(5)[unfolded td]] h(1) v vc
      by (simp add: path_join_abs)
    have vcat: "list_all valid_name (segs @ [''tools'', cat])" using v vc by simp
    obtain out where "processTool env ?p = (out, Some (t, c))"
      using h(3) by (cases "processTool env ?p") auto
    from processTool_Some[OF this] obtain metadata deps where
      a: "extractSoftwareType ?p = Inr c"
         "existsSync env (path_join (path_dirname ?p) (snd (getMainFileName c)))"
         "buildTool metadata (extractToolName ?p) deps
              (snd (getLastCommitDate env (path_dirname ?p))) = Inr t"
      by blast
    have c: "c = cat" using a(1) cd(1) by simp
    have "resolve env (path_join (abs_path (segs @ [''tools'', cat])) (snd (getMainFileName cat)))
            = map_of sub (snd (getMainFileName cat))"
      using rc by (intro resolve_child'[OF vcat valid_main_file]) simp
    then have "map_of sub (snd (getMainFileName cat)) \<noteq> None"
      using a(2) c cd(3) by (simp add: existsSync_def)
    moreover have "folder t = cat" using buildTool_Inr[OF a(3)] cd(2) by auto
    ultimately show ?thesis using c by simp
  qed
  show ?thesis using scan proc by blast
qed

theorem C10_no_depth_check_witness:
  \<open>cwd (repo misplaced_tools) = abs_path [''repo'']
   \<and> list_all valid_name [''repo''] \<and> ''tools'' \<notin> set [''repo'']
   \<and> list_all (\<lambda>s. backslash \<notin> set s) [''repo'']
   \<and> resolve (repo misplaced_tools) (path_join (cwd (repo misplaced_tools)) ''tools'')
       = Some (Dir misplaced_tools)
   \<and> wf_entries misplaced_tools
   \<and> descend (Dir misplaced_tools) ([''blender'', ''a'', ''sub''] @ [''metadata.json''])
       = Some (File ''{}'')
   \<and> descend (Dir misplaced_tools) ([''blender''] @ [''metadata.json''])
       = Some (File ''{"name":"A"}'')
   \<and> findMetadataFiles (repo misplaced_tools) (path_join (cwd (repo misplaced_tools)) ''tools'')
       = Inr [''/repo/tools/blender/metadata.json'', ''/repo/tools/blender/a/sub/metadata.json'']
   \<and> abs_path ([''repo''] @ ''tools'' # [''blender'', ''a'', ''sub''] @ [''metadata.json''])
       \<in> set [''/repo/tools/blender/metadata.json'', ''/repo/tools/blender/a/sub/metadata.json'']
   \<and> abs_path ([''repo''] @ ''tools'' # [''blender''] @ [''metadata.json''])
       \<in> set [''/repo/tools/blender/metadata.json'', ''/repo/tools/blender/a/sub/metadata.json'']
   \<and> backslash \<notin> set ''blender''
   \<and> snd (processTool (repo misplaced_tools)
            (abs_path ([''repo''] @ [''tools'', ''blender'', ''metadata.json''])))
       = Some (\<lparr> name = JStr ''A'', description = JStr [], folder = ''blender'',
                 updated_at = ''2024-05-01T10:00:00+02:00'',
                 dependencies = None, tool_id = None \<rparr>, ''blender'')
   \<and> map_of [(''metadata.json'', File ''{"name":"A"}''), (''tool.py'', File ''pass''),
              (''a'', Dir [(''sub'', tool_dir ''{}'' [(''tool.py'', File ''pass'')])])]
        (snd (getMainFileName ''blender'')) \<noteq> None\<close>
proof -
  let ?sub = \<open>[(''metadata.json'', File ''{"name":"A"}''), (''tool.py'', File ''pass''),
               (''a'', Dir [(''sub'', tool_dir ''{}'' [(''tool.py'', File ''pass'')])])]\<close>
  let ?t = "\<lparr> name = JStr ''A'', description = JStr [], folder = ''blender'',
               updated_at = ''2024-05-01T10:00:00+02:00'',
               dependencies = None, tool_id = None \<rparr>"
  let ?found = "[''/repo/tools/blender/metadata.json'', ''/repo/tools/blender/a/sub/metadata.json'']"
  have h1: "cwd (repo misplaced_tools) = abs_path [''repo'']" by code_simp
  have h2: "list_all valid_name [''repo'']" by code_simp
  have h3: "''tools'' \<notin> set [''repo'']" by code_simp
  have h4: "list_all (\<lambda>s. backslash \<notin> set s) [''repo'']" by code_simp
  have h5: "resolve (repo misplaced_tools) (path_join (cwd (repo misplaced_tools)) ''tools'')
              = Some (Dir misplaced_tools)" by code_simp
  have h6: "wf_entries misplaced_tools" by code_simp
  have a1: "descend (Dir misplaced_tools) ([''blender'', ''a'', ''sub''] @ [''metadata.json''])
              = Some (File ''{}'')" by code_simp
  have a2: \<open>descend (Dir misplaced_tools) ([''blender''] @ [''metadata.json''])
              = Some (File ''{"name":"A"}'')\<close> by code_simp
  have a3: "findMetadataFiles (repo misplaced_tools)
              (path_join (cwd (repo misplaced_tools)) ''tools'') = Inr ?found" by code_simp
  have b1: "map_of misplaced_tools ''blender'' = Some (Dir ?sub)" by code_simp
  have b2: "backslash \<notin> set ''blender''" by code_simp
  have b3: "snd (processTool (repo misplaced_tools)
                  (abs_path ([''repo''] @ [''tools'', ''blender'', ''metadata.json''])))
              = Some (?t, ''blender'')" by code_simp
  note rule0 = C10_no_depth_check[OF h1 h2 h3 h4 h5 h6]
  from rule0[where rel = "[''blender'', ''a'', ''sub'']" and content = "''{}''"] a1 a3
  have r1: "abs_path ([''repo''] @ ''tools'' # [''blender'', ''a'', ''sub''] @ [''metadata.json''])
              \<in> set ?found" by auto
  from rule0[where rel = "[''blender'']" and content = \<open>''{"name":"A"}''\<close>] a2 a3
  have r2: "abs_path ([''repo''] @ ''tools'' # [''blender''] @ [''metadata.json'']) \<in> set ?found"
    by auto
  from rule0[where cat = "''blender''" and sub = ?sub and t = ?t and c = "''blender''"] b1 b2 b3
  have r3: "map_of ?sub (snd (getMainFileName ''blender'')) \<noteq> None" by blast
  from h1 h2 h3 h4 h5 h6 a1 a2 a3 b2 b3 r1 r2 r3 show ?thesis by blast
qed

end
